theory Spec2Isabelle
  imports Main
begin

section \<open>Errors\<close>

text \<open>
  Go errors are values. The sentinel errors the program compares against by identity
  (\<^verbatim>\<open>migrate.ErrNoChange\<close>, \<^verbatim>\<open>http.ErrServerClosed\<close>) and the ones the standard library
  produces on the paths the program takes are constructors of their own; every other
  failure of a collaborator carries its message. \<^verbatim>\<open>fmt.Errorf("...: %w", err)\<close> is
  \<open>Wrapped\<close>: a new error value that is not identical to the one it wraps.
\<close>

datatype error =
    ErrNoChange
  | ErrNoRows
  | ContextCanceled
  | DeadlineExceeded
  | ScanError nat string
  | DestCountError nat nat
  | DriverError string
  | Wrapped string error
  | ErrServerClosed

section \<open>Configuration (cmd/server/main.go)\<close>

text \<open>
  The process environment is a finite map from names to values; \<^verbatim>\<open>os.Getenv\<close> returns the
  empty string for a name that is not set.
\<close>

type_synonym environ = "string \<rightharpoonup> string"

definition Getenv :: "environ \<Rightarrow> string \<Rightarrow> string" where
  "Getenv env key = (case env key of None \<Rightarrow> [] | Some v \<Rightarrow> v)"

text \<open>
  \<^verbatim>\<open>
  func getEnvOrDefault(key, defaultValue string) string {
      if value := os.Getenv(key); value != "" {
          return value
      }
      return defaultValue
  }
  \<close>
\<close>

definition getEnvOrDefault :: "environ \<Rightarrow> string \<Rightarrow> string \<Rightarrow> string" where
  "getEnvOrDefault env key defaultValue =
     (let value = Getenv env key in if value \<noteq> [] then value else defaultValue)"

text \<open>
  \<^verbatim>\<open>flag.String(name, value, usage)\<close> followed by \<^verbatim>\<open>flag.Parse()\<close>: the value given on the
  command line when the flag is present there, the registered default otherwise.
\<close>

type_synonym cmdline = "string \<rightharpoonup> string"

definition flag_String :: "cmdline \<Rightarrow> string \<Rightarrow> string \<Rightarrow> string" where
  "flag_String args name dflt = (case args name of Some v \<Rightarrow> v | None \<Rightarrow> dflt)"

record Config =
  Host :: string
  Port :: string
  User :: string
  Password :: string
  DBName :: string
  SSLMode :: string

definition dbConfig :: "cmdline \<Rightarrow> environ \<Rightarrow> Config" where
  "dbConfig args env =
     \<lparr> Host = flag_String args ''db-host'' (getEnvOrDefault env ''DB_HOST'' ''localhost''),
       Port = flag_String args ''db-port'' (getEnvOrDefault env ''DB_PORT'' ''5432''),
       User = flag_String args ''db-user'' (getEnvOrDefault env ''DB_USER'' ''postgres''),
       Password = flag_String args ''db-password'' (getEnvOrDefault env ''DB_PASSWORD'' ''postgres''),
       DBName = flag_String args ''db-name'' (getEnvOrDefault env ''DB_NAME'' ''go_api_template''),
       SSLMode = flag_String args ''db-ssl-mode'' (getEnvOrDefault env ''DB_SSLMODE'' ''disable'') \<rparr>"

section \<open>The wire messages (gen/go/users/v1)\<close>

text \<open>
  Modelled from the spec: the generated message types and getters of \<^verbatim>\<open>gen/go/users/v1\<close>
  are not among the sources. \<^verbatim>\<open>User = {id: int64, email: string, name: string}\<close>,
  \<^verbatim>\<open>CreateUser(email: string, name: string) -> User\<close>,
  \<^verbatim>\<open>ListUsers() -> sequence of User\<close>; the list request carries no field. The identifier
  is an \<open>int\<close>: the program performs no arithmetic on it, and \<open>ParseInt\<close> below keeps
  every value scanned from a text inside the 64-bit range.
\<close>

record User =
  Id :: int
  Email :: string
  Name :: string

record CreateUserRequest =
  req_Email :: string
  req_Name :: string

datatype CreateUserResponse = CreateUserResponse (GetUser: User)

datatype ListUsersResponse = ListUsersResponse (GetUsers: "User list")

datatype ListUsersRequest = ListUsersRequest

text \<open>
  Modelled from the spec: the getters \<^verbatim>\<open>GetEmail\<close> and \<^verbatim>\<open>GetName\<close> of the generated request
  type extract email and name from the request; as every generated getter they accept a
  nil request and return the zero value for it. A request pointer is an \<open>option\<close>.
\<close>

definition GetEmail :: "CreateUserRequest option \<Rightarrow> string" where
  "GetEmail x = (case x of Some r \<Rightarrow> req_Email r | None \<Rightarrow> [])"

definition GetName :: "CreateUserRequest option \<Rightarrow> string" where
  "GetName x = (case x of Some r \<Rightarrow> req_Name r | None \<Rightarrow> [])"

section \<open>database/sql: driver values, rows and Scan\<close>

text \<open>
  The values a driver hands to \<^verbatim>\<open>Scan\<close> for the columns of the users table: a 64-bit
  integer, a text (\<^verbatim>\<open>string\<close> or \<^verbatim>\<open>[]byte\<close>) or SQL NULL. A row is the list of its columns.
\<close>

datatype driver_value = DInt int | DText string | DNull

type_synonym row = "driver_value list"

text \<open>
  A result set: the rows still to be delivered, the error (if any) that ends the iteration
  early and that only \<^verbatim>\<open>rows.Err()\<close> reports, and the error of \<^verbatim>\<open>rows.Close()\<close>.
  \<^verbatim>\<open>rows.Next()\<close> answers false both at the end of the rows and on such an error.
\<close>

record Rows =
  pending :: "row list"
  iter_err :: "error option"
  close_err :: "error option"

text \<open>\<^verbatim>\<open>ctx.Err()\<close>: \<open>None\<close> while the context is live.\<close>

type_synonym Context = "error option"

subsection \<open>strconv\<close>

definition digit_of :: "char \<Rightarrow> nat option" where
  "digit_of c = (let n = (of_char c :: nat) in if 48 \<le> n \<and> n \<le> 57 then Some (n - 48) else None)"

text \<open>
  The digit loop of \<^verbatim>\<open>strconv.ParseUint(s, 10, 64)\<close>: the characters are read from left to
  right; the first one that is not a decimal digit is a syntax error, and the first digit
  with which the value leaves the unsigned 64-bit range is a range error, whatever
  follows it. The result is the cause text on failure.
\<close>

fun ParseUint_digits :: "string \<Rightarrow> nat \<Rightarrow> string + nat" where
  "ParseUint_digits [] n = Inr n"
| "ParseUint_digits (c # cs) n =
     (case digit_of c of
        None \<Rightarrow> Inl ''invalid syntax''
      | Some d \<Rightarrow>
          if n * 10 + d \<ge> 2 ^ 64 then Inl ''value out of range''
          else ParseUint_digits cs (n * 10 + d))"

text \<open>
  \<^verbatim>\<open>strconv.ParseInt(s, 10, 64)\<close>: an optional sign, at least one decimal digit, nothing
  else; a value outside the signed 64-bit range is a range error. The result is the cause
  text on failure.
\<close>

definition ParseInt :: "string \<Rightarrow> string + int" where
  "ParseInt s =
     (case s of
        [] \<Rightarrow> Inl ''invalid syntax''
      | c # cs \<Rightarrow>
          (let neg = (c = CHR ''-'');
               body = (if c = CHR ''+'' \<or> c = CHR ''-'' then cs else s)
           in if body = [] then Inl ''invalid syntax''
              else (case ParseUint_digits body 0 of
                      Inl m \<Rightarrow> Inl m
                    | Inr un \<Rightarrow>
                        if \<not> neg \<and> un \<ge> 2 ^ 63 then Inl ''value out of range''
                        else if neg \<and> un > 2 ^ 63 then Inl ''value out of range''
                        else Inr (if neg then - int un else int un))))"

function FormatUint :: "nat \<Rightarrow> string" where
  "FormatUint n =
     (if n < 10 then [char_of (48 + n)]
      else FormatUint (n div 10) @ [char_of (48 + n mod 10)])"
  by pat_completeness auto
termination
  by (relation "measure id") auto

definition FormatInt :: "int \<Rightarrow> string" where
  "FormatInt i = (if i < 0 then CHR ''-'' # FormatUint (nat (- i)) else FormatUint (nat i))"

subsection \<open>convertAssign\<close>

text \<open>
  Into a \<^verbatim>\<open>*int64\<close>: an integer is stored as it is, a text is parsed by \<open>ParseInt\<close>, NULL is
  refused. Into a \<^verbatim>\<open>*string\<close>: a text is stored as it is, an integer is formatted in
  decimal, NULL is refused.
\<close>

fun convertAssign_int64 :: "driver_value \<Rightarrow> string + int" where
  "convertAssign_int64 DNull = Inl ''converting NULL to int64 is unsupported''"
| "convertAssign_int64 (DInt i) = Inr i"
| "convertAssign_int64 (DText s) = ParseInt s"

fun convertAssign_string :: "driver_value \<Rightarrow> string + string" where
  "convertAssign_string DNull = Inl ''converting NULL to string is unsupported''"
| "convertAssign_string (DInt i) = Inr (FormatInt i)"
| "convertAssign_string (DText s) = Inr s"

subsection \<open>Rows.Scan and Row.Scan\<close>

text \<open>
  \<^verbatim>\<open>rows.Scan(&user.Id, &user.Email, &user.Name)\<close>: the row must have as many columns as
  there are destinations; the columns are converted from left to right and the first
  failure is reported with its column index.
\<close>

definition Rows_Scan_User :: "row \<Rightarrow> error + User" where
  "Rows_Scan_User r =
     (case r of
        [c0, c1, c2] \<Rightarrow>
          (case convertAssign_int64 c0 of
             Inl m \<Rightarrow> Inl (ScanError 0 m)
           | Inr i \<Rightarrow>
               (case convertAssign_string c1 of
                  Inl m \<Rightarrow> Inl (ScanError 1 m)
                | Inr e \<Rightarrow>
                    (case convertAssign_string c2 of
                       Inl m \<Rightarrow> Inl (ScanError 2 m)
                     | Inr n \<Rightarrow> Inr \<lparr> Id = i, Email = e, Name = n \<rparr>)))
      | _ \<Rightarrow> Inl (DestCountError (length r) 3))"

text \<open>
  \<^verbatim>\<open>db.QueryRowContext\<close> returns a \<^verbatim>\<open>*Row\<close> that holds either the error of the query or its
  result set. \<^verbatim>\<open>row.Scan(&userID)\<close> reports the held error; when there is no first row,
  what \<^verbatim>\<open>rows.Err()\<close> then holds (the iteration error, else the error of the close that
  \<^verbatim>\<open>Next\<close> performed) and \<^verbatim>\<open>sql.ErrNoRows\<close> if it holds none; the conversion error of the
  first row; and finally the error of closing the result set.
\<close>

type_synonym Row = "error + Rows"

definition Row_Err :: "Row \<Rightarrow> error option" where
  "Row_Err row = (case row of Inl e \<Rightarrow> Some e | Inr _ \<Rightarrow> None)"

definition Row_Scan_int64 :: "Row \<Rightarrow> error + int" where
  "Row_Scan_int64 row =
     (case row of
        Inl e \<Rightarrow> Inl e
      | Inr rows \<Rightarrow>
          (case pending rows of
             [] \<Rightarrow>
               (case iter_err rows of
                  Some e \<Rightarrow> Inl e
                | None \<Rightarrow> (case close_err rows of Some e \<Rightarrow> Inl e | None \<Rightarrow> Inl ErrNoRows))
           | r # _ \<Rightarrow>
               (case r of
                  [c0] \<Rightarrow>
                    (case convertAssign_int64 c0 of
                       Inl m \<Rightarrow> Inl (ScanError 0 m)
                     | Inr i \<Rightarrow> (case close_err rows of Some e \<Rightarrow> Inl e | None \<Rightarrow> Inr i))
                | _ \<Rightarrow> Inl (DestCountError (length r) 1))))"

section \<open>The store behind sql.DB\<close>

text \<open>
  The database is PostgreSQL, reached through \<^verbatim>\<open>*sql.DB\<close>. Its state follows the schema
  the migration creates:
  \<^verbatim>\<open>
  CREATE SEQUENCE IF NOT EXISTS seq_users_id START 1;
  CREATE TABLE IF NOT EXISTS users (
      id INTEGER PRIMARY KEY DEFAULT nextval('seq_users_id'),
      email TEXT NOT NULL,
      name TEXT NOT NULL
  );
  \<close>
  \<open>seq_users_id\<close> is the value the next \<^verbatim>\<open>nextval\<close> returns, \<open>users_tab\<close> the rows of the table
  in the order a scan without ORDER BY delivers them, \<open>conn_err\<close> the error every statement
  fails with while the connection cannot be used. Rows are kept as driver values, so that
  a state may also hold rows that do not fit the schema (corrupted data).
\<close>

record sqlDB =
  conn_err :: "error option"
  seq_users_id :: int
  users_tab :: "row list"

definition migrated :: sqlDB where
  "migrated = \<lparr> conn_err = None, seq_users_id = 1, users_tab = [] \<rparr>"

definition int4_max :: int where
  "int4_max = 2147483647"

definition seq_max :: int where
  "seq_max = 9223372036854775807"

text \<open>
  Email and name reach the service as protobuf strings, which are valid UTF-8. Of these
  the store refuses a text exactly when it holds a zero byte.
\<close>

definition text_ok :: "string \<Rightarrow> bool" where
  "text_ok s = (CHR 0x00 \<notin> set s)"

definition pkey_of :: "row \<Rightarrow> driver_value" where
  "pkey_of r = (case r of [] \<Rightarrow> DNull | c # _ \<Rightarrow> c)"

text \<open>
  \<^verbatim>\<open>INSERT INTO users (email, name) VALUES ($1, $2) RETURNING id;\<close>
  The parameters are checked when they are bound, before the statement runs. The default
  of \<open>id\<close> draws the next value of the sequence, which stays drawn also when the insert
  then fails: on a value beyond the 32-bit INTEGER column, or on a primary key that is
  already in the table. Otherwise the row is appended and its id returned.
\<close>

definition insert_user :: "sqlDB \<Rightarrow> string \<Rightarrow> string \<Rightarrow> (error + Rows) \<times> sqlDB" where
  "insert_user db email name =
     (if \<not> text_ok email \<or> \<not> text_ok name
      then (Inl (DriverError ''pq: invalid byte sequence for encoding''), db)
      else if seq_max < seq_users_id db
      then (Inl (DriverError ''pq: nextval: reached maximum value of sequence''), db)
      else
        (let id = seq_users_id db; db' = db\<lparr> seq_users_id := id + 1 \<rparr>
         in if int4_max < id
            then (Inl (DriverError ''pq: integer out of range''), db')
            else if DInt id \<in> set (map pkey_of (users_tab db))
            then (Inl (DriverError ''pq: duplicate key value violates unique constraint''), db')
            else (Inr \<lparr> pending = [[DInt id]], iter_err = None, close_err = None \<rparr>,
                  db'\<lparr> users_tab := users_tab db @ [[DInt id, DText email, DText name]] \<rparr>)))"

text \<open>The two statements the program sends.\<close>

datatype statement = SelectAllUsers | InsertUser string string

text \<open>
  \<^verbatim>\<open>db.QueryContext(ctx, query, args...)\<close>: the error of a context that is already done, the
  error of an unusable connection, the result of the statement otherwise.
  \<^verbatim>\<open>db.QueryRowContext\<close> is the same call with the outcome held in a \<^verbatim>\<open>*Row\<close>.
\<close>

definition QueryContext :: "sqlDB \<Rightarrow> Context \<Rightarrow> statement \<Rightarrow> (error + Rows) \<times> sqlDB" where
  "QueryContext db ctx q =
     (case ctx of
        Some e \<Rightarrow> (Inl e, db)
      | None \<Rightarrow>
          (case conn_err db of
             Some e \<Rightarrow> (Inl e, db)
           | None \<Rightarrow>
               (case q of
                  SelectAllUsers \<Rightarrow>
                    (Inr \<lparr> pending = users_tab db, iter_err = None, close_err = None \<rparr>, db)
                | InsertUser email name \<Rightarrow> insert_user db email name)))"

definition QueryRowContext :: "sqlDB \<Rightarrow> Context \<Rightarrow> statement \<Rightarrow> Row \<times> sqlDB" where
  "QueryRowContext db ctx q = QueryContext db ctx q"

section \<open>The users service (internal/users)\<close>

text \<open>
  \<^verbatim>\<open>
  row := s.db.QueryRowContext(ctx, "INSERT INTO users (email, name) VALUES ($1, $2) RETURNING id;",
                              req.GetEmail(), req.GetName())
  if row.Err() != nil { return nil, row.Err() }
  var userID int64
  if err := row.Scan(&userID); err != nil { return nil, err }
  user := &userspb.User{Id: userID, Email: req.GetEmail(), Name: req.GetName()}
  return &userspb.CreateUserResponse{User: user}, nil
  \<close>
  \<open>CreateUser_of_row\<close> is the part of the body after the query; the store and the mock
  database of the tests differ only in the \<^verbatim>\<open>*Row\<close> they hand to it.
\<close>

definition CreateUser_of_row :: "Row \<Rightarrow> CreateUserRequest option \<Rightarrow> error + CreateUserResponse" where
  "CreateUser_of_row row req =
     (case Row_Err row of
        Some e \<Rightarrow> Inl e
      | None \<Rightarrow>
          (case Row_Scan_int64 row of
             Inl err \<Rightarrow> Inl err
           | Inr userID \<Rightarrow>
               Inr (CreateUserResponse \<lparr> Id = userID, Email = GetEmail req, Name = GetName req \<rparr>)))"

definition Service_CreateUser ::
  "sqlDB \<Rightarrow> Context \<Rightarrow> CreateUserRequest option \<Rightarrow> (error + CreateUserResponse) \<times> sqlDB" where
  "Service_CreateUser db ctx req =
     (let (row, db') = QueryRowContext db ctx (InsertUser (GetEmail req) (GetName req))
      in (CreateUser_of_row row req, db'))"

text \<open>
  \<^verbatim>\<open>
  rows, err := s.db.QueryContext(ctx, "SELECT * FROM users")
  if err != nil { return nil, err }
  defer rows.Close()
  users := make([]*userspb.User, 0)
  for rows.Next() {
      var user userspb.User
      err := rows.Scan(&user.Id, &user.Email, &user.Name)
      if err != nil { return nil, err }
      users = append(users, &user)
  }
  return &userspb.ListUsersResponse{Users: users}, nil
  \<close>
  The loop runs over the rows the result set delivers. \<^verbatim>\<open>rows.Err()\<close> is not consulted
  after the loop and the error of the deferred \<^verbatim>\<open>rows.Close()\<close> is dropped, so neither
  \<open>iter_err\<close> nor \<open>close_err\<close> reaches the result.
\<close>

fun ListUsers_loop :: "row list \<Rightarrow> User list \<Rightarrow> error + User list" where
  "ListUsers_loop [] users = Inr users"
| "ListUsers_loop (r # rs) users =
     (case Rows_Scan_User r of
        Inl err \<Rightarrow> Inl err
      | Inr user \<Rightarrow> ListUsers_loop rs (users @ [user]))"

definition ListUsers_of_rows :: "error + Rows \<Rightarrow> error + ListUsersResponse" where
  "ListUsers_of_rows q =
     (case q of
        Inl err \<Rightarrow> Inl err
      | Inr rows \<Rightarrow>
          (case ListUsers_loop (pending rows) [] of
             Inl err \<Rightarrow> Inl err
           | Inr users \<Rightarrow> Inr (ListUsersResponse users)))"

definition Service_ListUsers ::
  "sqlDB \<Rightarrow> Context \<Rightarrow> ListUsersRequest option \<Rightarrow> (error + ListUsersResponse) \<times> sqlDB" where
  "Service_ListUsers db ctx req =
     (let (q, db') = QueryContext db ctx SelectAllUsers
      in (ListUsers_of_rows q, db'))"

section \<open>The record store and the request service (internal/database.go, internal/server.go)\<close>

text \<open>
  \<^verbatim>\<open>Database.CreateUser\<close> and \<^verbatim>\<open>Database.GetUsers\<close> have the bodies of the two service
  methods above, on the \<^verbatim>\<open>*sql.DB\<close> the \<^verbatim>\<open>Database\<close> holds.
\<close>

definition Database_CreateUser ::
  "sqlDB \<Rightarrow> Context \<Rightarrow> CreateUserRequest option \<Rightarrow> (error + CreateUserResponse) \<times> sqlDB" where
  "Database_CreateUser db ctx req =
     (let (row, db') = QueryRowContext db ctx (InsertUser (GetEmail req) (GetName req))
      in (CreateUser_of_row row req, db'))"

definition Database_GetUsers ::
  "sqlDB \<Rightarrow> Context \<Rightarrow> (error + ListUsersResponse) \<times> sqlDB" where
  "Database_GetUsers db ctx =
     (let (q, db') = QueryContext db ctx SelectAllUsers
      in (ListUsers_of_rows q, db'))"

text \<open>
  \<^verbatim>\<open>
  func (s *UsersServer) CreateUser(ctx, req) (*userspb.CreateUserResponse, error) {
      return s.db.CreateUser(ctx, req)
  }
  func (s *UsersServer) ListUsers(ctx, req) (*userspb.ListUsersResponse, error) {
      return s.db.GetUsers(ctx)
  }
  \<close>
\<close>

definition UsersServer_CreateUser ::
  "sqlDB \<Rightarrow> Context \<Rightarrow> CreateUserRequest option \<Rightarrow> (error + CreateUserResponse) \<times> sqlDB" where
  "UsersServer_CreateUser db ctx req = Database_CreateUser db ctx req"

definition UsersServer_ListUsers ::
  "sqlDB \<Rightarrow> Context \<Rightarrow> ListUsersRequest option \<Rightarrow> (error + ListUsersResponse) \<times> sqlDB" where
  "UsersServer_ListUsers db ctx req = Database_GetUsers db ctx"

section \<open>Runs of operations\<close>

text \<open>
  A run is a sequence of calls on the service, interleaved with the connection becoming
  unusable or usable again. \<open>step\<close> gives the state after a call and, for a
  \<^verbatim>\<open>CreateUser\<close> that succeeded, the identifier it returned; \<open>run\<close> collects these
  identifiers in call order.
\<close>

datatype op =
    OpCreateUser Context "CreateUserRequest option"
  | OpListUsers Context
  | OpConn "error option"

fun step :: "sqlDB \<Rightarrow> op \<Rightarrow> sqlDB \<times> int option" where
  "step db (OpCreateUser ctx req) =
     (case Service_CreateUser db ctx req of
        (Inl _, db') \<Rightarrow> (db', None)
      | (Inr resp, db') \<Rightarrow> (db', Some (Id (GetUser resp))))"
| "step db (OpListUsers ctx) = (snd (Service_ListUsers db ctx (Some ListUsersRequest)), None)"
| "step db (OpConn e) = (db\<lparr> conn_err := e \<rparr>, None)"

fun run :: "sqlDB \<Rightarrow> op list \<Rightarrow> sqlDB \<times> int list" where
  "run db [] = (db, [])"
| "run db (x # xs) =
     (let (db', a) = step db x; (db'', ids) = run db' xs
      in (db'', (case a of None \<Rightarrow> [] | Some i \<Rightarrow> [i]) @ ids))"

text \<open>
  The states that fit the schema: every row is an integer id and two texts, the ids are
  positive, within the INTEGER column, below the next value of the sequence, and pairwise
  different (the primary key).
\<close>

fun row_ok :: "int \<Rightarrow> row \<Rightarrow> bool" where
  "row_ok bound [DInt i, DText e, DText n] = (1 \<le> i \<and> i < bound \<and> i \<le> int4_max)"
| "row_ok bound _ = False"

definition schema_ok :: "sqlDB \<Rightarrow> bool" where
  "schema_ok db =
     (list_all (row_ok (seq_users_id db)) (users_tab db)
      \<and> distinct (map pkey_of (users_tab db))
      \<and> 1 \<le> seq_users_id db)"

section \<open>The process supervisor (cmd/server/main.go)\<close>

text \<open>
  \<open>main\<close> is a fixed sequence of calls on collaborators. Each call is an event of the
  trace; what a collaborator answers is an input of the model. Timeouts are in seconds.
\<close>

datatype event =
    EvInitOTel
  | EvInitOTelMetrics
  | EvRuntimeStart
  | EvMigrateNew
  | EvMigrateUp
  | EvMigrateClose
  | EvListen string
  | EvNewService
  | EvServeGRPC
  | EvNewClient
  | EvRegisterGateway
  | EvNotifySignals
  | EvListenAndServe string
  | EvHTTPShutdown nat
  | EvGracefulStop
  | EvStoreClose
  | EvShutdownOTel nat
  | EvShutdownOTelMetrics nat
  | EvLogInfo string
  | EvLogWarn string error
  | EvLogError string error
  | EvExit nat

text \<open>
  \<^verbatim>\<open>
  m, err := migrate.New("file://migrations", dbURL)
  if err != nil { return fmt.Errorf("failed to create migration instance: %w", err) }
  defer m.Close()
  if err := m.Up(); err != nil && err != migrate.ErrNoChange {
      return fmt.Errorf("failed to run migrations: %w", err)
  }
  slog.Info("Database migrations completed successfully")
  return nil
  \<close>
  The arguments are the answers of \<^verbatim>\<open>migrate.New\<close> and of \<^verbatim>\<open>m.Up()\<close>.
\<close>

definition runMigrations :: "error option \<Rightarrow> error option \<Rightarrow> error option \<times> event list" where
  "runMigrations new_res up_res =
     (case new_res of
        Some err \<Rightarrow> (Some (Wrapped ''failed to create migration instance'' err), [EvMigrateNew])
      | None \<Rightarrow>
          (case up_res of
             None \<Rightarrow>
               (None, [EvMigrateNew, EvMigrateUp,
                       EvLogInfo ''Database migrations completed successfully'', EvMigrateClose])
           | Some err \<Rightarrow>
               if err \<noteq> ErrNoChange
               then (Some (Wrapped ''failed to run migrations'' err),
                     [EvMigrateNew, EvMigrateUp, EvMigrateClose])
               else (None, [EvMigrateNew, EvMigrateUp,
                            EvLogInfo ''Database migrations completed successfully'', EvMigrateClose])))"

text \<open>
  The answers of the collaborators during startup. \<^verbatim>\<open>InitOTel\<close> and \<^verbatim>\<open>InitOTelMetrics\<close>
  answer an error, or whether a provider was created (\<open>True\<close>) or the no-op fallback is in
  place (\<open>False\<close>, a nil provider).
\<close>

record startup =
  InitOTel_res :: "error + bool"
  InitOTelMetrics_res :: "error + bool"
  runtime_Start_res :: "error option"
  migrate_New_res :: "error option"
  migrate_Up_res :: "error option"
  net_Listen_res :: "error option"
  NewService_res :: "error option"
  NewClient_res :: "error option"
  RegisterHandler_res :: "error option"

datatype outcome = Exited nat | Serving

text \<open>\<^verbatim>\<open>slog.Error(msg, "error", err); os.Exit(1)\<close> after the trace so far.\<close>

definition fatal :: "event list \<Rightarrow> string \<Rightarrow> error \<Rightarrow> event list \<times> outcome" where
  "fatal tr msg err = (tr @ [EvLogError msg err, EvExit 1], Exited 1)"

text \<open>
  \<open>main\<close> from \<^verbatim>\<open>net.Listen("tcp", ":8080")\<close> up to the call of
  \<^verbatim>\<open>gwServer.ListenAndServe()\<close> on \<^verbatim>\<open>:8081\<close>. \<open>Serving\<close> says that this call has been made,
  not what it answers: what \<open>main\<close> does with the answer is \<open>main_after_serve\<close>, and
  the goroutine started at \<open>EvServeGRPC\<close> is \<open>serve_actions\<close>, both below.
\<close>

definition main_serve :: "startup \<Rightarrow> event list \<Rightarrow> event list \<times> outcome" where
  "main_serve env tr =
     (case net_Listen_res env of
        Some err \<Rightarrow> fatal (tr @ [EvListen '':8080'']) ''failed to create (gRPC) listener'' err
      | None \<Rightarrow>
     (case NewService_res env of
        Some err \<Rightarrow>
          fatal (tr @ [EvListen '':8080'', EvNewService]) ''failed to create users service instance'' err
      | None \<Rightarrow>
     (case NewClient_res env of
        Some err \<Rightarrow>
          fatal (tr @ [EvListen '':8080'', EvNewService, EvServeGRPC, EvNewClient])
            ''failed to create gRPC client'' err
      | None \<Rightarrow>
     (case RegisterHandler_res env of
        Some err \<Rightarrow>
          fatal (tr @ [EvListen '':8080'', EvNewService, EvServeGRPC, EvNewClient, EvRegisterGateway])
            ''failed to register gRPC gateway'' err
      | None \<Rightarrow>
          (tr @ [EvListen '':8080'', EvNewService, EvServeGRPC, EvNewClient, EvRegisterGateway,
                 EvNotifySignals, EvLogInfo ''gRPC Gateway listening'', EvListenAndServe '':8081''],
           Serving)))))"

text \<open>
  \<open>main\<close> from its start: telemetry, then
  \<^verbatim>\<open>
  if err := runMigrations(dbConfig); err != nil {
      slog.Error("failed to run migrations", "error", err)
      os.Exit(1)
  }
  \<close>
  and then the listeners.
\<close>

definition main_migrate :: "startup \<Rightarrow> event list \<Rightarrow> event list \<times> outcome" where
  "main_migrate env tr =
     (let (merr, mtr) = runMigrations (migrate_New_res env) (migrate_Up_res env)
      in case merr of
           Some err \<Rightarrow> fatal (tr @ mtr) ''failed to run migrations'' err
         | None \<Rightarrow> main_serve env (tr @ mtr))"

definition main :: "startup \<Rightarrow> event list \<times> outcome" where
  "main env =
     (case InitOTel_res env of
        Inl err \<Rightarrow> fatal [EvInitOTel] ''failed to initialize OpenTelemetry traces'' err
      | Inr tp \<Rightarrow>
          (case InitOTelMetrics_res env of
             Inl err \<Rightarrow>
               fatal [EvInitOTel, EvInitOTelMetrics] ''failed to initialize OpenTelemetry metrics'' err
           | Inr mp \<Rightarrow>
               main_migrate env
                 ([EvInitOTel, EvInitOTelMetrics] @
                  (if mp
                   then EvRuntimeStart #
                     (case runtime_Start_res env of
                        Some err \<Rightarrow> [EvLogWarn ''failed to start runtime metrics collection'' err]
                      | None \<Rightarrow> [])
                   else []))))"

subsection \<open>Shutdown: the goroutines after a signal\<close>

text \<open>
  The answers of the collaborators during shutdown. For the two telemetry providers
  \<open>None\<close> is a nil provider and \<open>Some r\<close> a provider whose \<^verbatim>\<open>Shutdown\<close> answers \<open>r\<close> to the
  signal handler; \<open>tp_deferred_res\<close> and \<open>mp_deferred_res\<close> are the answers of the same
  providers to the deferred calls of \<open>main\<close>. \<open>grpc_Serve_res\<close> is what
  \<^verbatim>\<open>grpcServer.Serve(lis)\<close> returns.
\<close>

record shutdown =
  gw_Shutdown_res :: "error option"
  impl_Close_res :: "error option"
  tp_Shutdown_res :: "error option option"
  mp_Shutdown_res :: "error option option"
  tp_deferred_res :: "error option"
  mp_deferred_res :: "error option"
  grpc_Serve_res :: "error option"

text \<open>
  \<^verbatim>\<open>
  func ShutdownOTel(ctx, tp, timeout) error {
      if tp == nil { return nil }
      shutdownCtx, cancel := context.WithTimeout(ctx, timeout)
      defer cancel()
      return tp.Shutdown(shutdownCtx)
  }
  \<close>
  and the same for \<^verbatim>\<open>ShutdownOTelMetrics\<close>.
\<close>

definition ShutdownOTel :: "error option option \<Rightarrow> nat \<Rightarrow> error option \<times> event list" where
  "ShutdownOTel tp timeout =
     (case tp of None \<Rightarrow> (None, []) | Some r \<Rightarrow> (r, [EvShutdownOTel timeout]))"

definition ShutdownOTelMetrics :: "error option option \<Rightarrow> nat \<Rightarrow> error option \<times> event list" where
  "ShutdownOTelMetrics mp timeout =
     (case mp of None \<Rightarrow> (None, []) | Some r \<Rightarrow> (r, [EvShutdownOTelMetrics timeout]))"

text \<open>\<^verbatim>\<open>Service.Close\<close>: the log line, then \<^verbatim>\<open>s.db.Close()\<close>.\<close>

definition Service_Close :: "error option \<Rightarrow> error option \<times> event list" where
  "Service_Close res = (res, [EvLogInfo ''shutting down database connection'', EvStoreClose])"

definition log_failure :: "string \<Rightarrow> error option \<Rightarrow> event list" where
  "log_failure msg res = (case res of Some err \<Rightarrow> [EvLogError msg err] | None \<Rightarrow> [])"

text \<open>
  Once the process serves, three goroutines run: \<open>main\<close>, blocked in
  \<^verbatim>\<open>gwServer.ListenAndServe()\<close>, the goroutine in \<^verbatim>\<open>grpcServer.Serve(lis)\<close>, and the one waiting
  for SIGINT or SIGTERM. Nothing in the program makes one of them wait for another (no
  channel, no wait group), so after the signal they interleave. An action is a stretch of
  one goroutine between two points where another goroutine may be scheduled: the events
  it emits, and the status the process ends with when the action ends the process.
  \<open>EvExit n\<close> is the end of the process with status \<open>n\<close>, by \<^verbatim>\<open>os.Exit(n)\<close> or, for
  \<open>n = 0\<close>, by the return of \<open>main\<close>.
\<close>

type_synonym action = "event list \<times> nat option"

text \<open>
  The goroutine that waits for the signal:
  \<^verbatim>\<open>
  sig := <-signalChan
  slog.Info("received signal, shutting down servers", "signal", sig.String())
  shutdownCtx, cancel := context.WithTimeout(context.Background(), 10*time.Second)
  defer cancel()
  if err := gwServer.Shutdown(shutdownCtx); err != nil {
      slog.Error("failed to shutdown HTTP server", "error", err)
  }
  grpcServer.GracefulStop()
  if err := impl.Close(); err != nil {
      slog.Error("failed to properly close users service", "error", err)
      os.Exit(1)
  }
  if err := internal.ShutdownOTel(context.Background(), tp, otelConfig.ShutdownTimeout); err != nil {
      slog.Error("failed to shutdown OpenTelemetry traces", "error", err)
  }
  if mp != nil {
      if err := internal.ShutdownOTelMetrics(context.Background(), mp, otelConfig.ShutdownTimeout); err != nil {
          slog.Error("failed to shutdown OpenTelemetry metrics", "error", err)
      }
  }
  \<close>
  with \<^verbatim>\<open>otelConfig.ShutdownTimeout = 30 * time.Second\<close>. Its actions, in program order: the
  call of \<^verbatim>\<open>gwServer.Shutdown\<close>, which closes the listeners and then waits for the
  connections to drain; the return of that call; \<^verbatim>\<open>GracefulStop\<close>; \<^verbatim>\<open>impl.Close\<close>; the two
  telemetry shutdowns.
\<close>

definition handler_actions :: "shutdown \<Rightarrow> action list" where
  "handler_actions env =
     [([EvLogInfo ''received signal, shutting down servers'', EvHTTPShutdown 10], None),
      (log_failure ''failed to shutdown HTTP server'' (gw_Shutdown_res env), None),
      ([EvGracefulStop], None),
      (let (cerr, ctr) = Service_Close (impl_Close_res env)
       in case cerr of
            Some err \<Rightarrow>
              (ctr @ [EvLogError ''failed to properly close users service'' err, EvExit 1], Some 1)
          | None \<Rightarrow> (ctr, None)),
      (let (e1, tr1) = ShutdownOTel (tp_Shutdown_res env) 30
       in (tr1 @ log_failure ''failed to shutdown OpenTelemetry traces'' e1, None))]
     @ (if mp_Shutdown_res env \<noteq> None
        then [(let (e2, tr2) = ShutdownOTelMetrics (mp_Shutdown_res env) 30
               in (tr2 @ log_failure ''failed to shutdown OpenTelemetry metrics'' e2, None))]
        else [])"

text \<open>
  The return of \<open>main\<close>. The deferred functions run, last registered first: the one for
  the metric provider (registered when \<^verbatim>\<open>mp != nil\<close>), then the one for the trace provider
  (registered when \<^verbatim>\<open>tp != nil\<close>); each logs the error of its shutdown. Then the process
  ends with status 0.
\<close>

definition main_return :: "shutdown \<Rightarrow> action list" where
  "main_return env =
     (if mp_Shutdown_res env \<noteq> None
      then [(let (e2, tr2) = ShutdownOTelMetrics (Some (mp_deferred_res env)) 30
             in (tr2 @ log_failure ''failed to shutdown OpenTelemetry metrics'' e2, None))]
      else [])
     @ (if tp_Shutdown_res env \<noteq> None
        then [(let (e1, tr1) = ShutdownOTel (Some (tp_deferred_res env)) 30
               in (tr1 @ log_failure ''failed to shutdown OpenTelemetry traces'' e1, None))]
        else [])
     @ [([EvExit 0], Some 0)]"

text \<open>
  The end of \<open>main\<close>, once \<^verbatim>\<open>gwServer.ListenAndServe()\<close> has answered \<open>res\<close>:
  \<^verbatim>\<open>
  if err := gwServer.ListenAndServe(); err != nil && err != http.ErrServerClosed {
      slog.Error("HTTP server failed", "error", err)
      os.Exit(1)
  }
  \<close>
  and \<open>main\<close> returns otherwise.
\<close>

definition main_after_serve :: "shutdown \<Rightarrow> error option \<Rightarrow> action list" where
  "main_after_serve env res =
     (case res of
        None \<Rightarrow> main_return env
      | Some err \<Rightarrow>
          if err \<noteq> ErrServerClosed
          then [([EvLogError ''HTTP server failed'' err, EvExit 1], Some 1)]
          else main_return env)"

text \<open>
  \<^verbatim>\<open>
  go func() {
      if err := grpcServer.Serve(lis); err != nil {
          slog.Error("gRPC server failed", "error", err)
          os.Exit(1)
      }
  }()
  \<close>
\<close>

definition serve_actions :: "error option \<Rightarrow> action list" where
  "serve_actions res =
     (case res of
        None \<Rightarrow> []
      | Some err \<Rightarrow> [([EvLogError ''gRPC server failed'' err, EvExit 1], Some 1)])"

text \<open>
  A schedule names the goroutine that performs the next action. \<open>run_proc\<close> runs the
  remaining actions of \<open>main\<close>, of the handler and of the serving goroutine along a
  schedule, up to the action that ends the process; the result is the trace and the exit
  status, \<open>None\<close> when the process is still running at the end of the schedule. A goroutine
  that has no action left, and \<open>main\<close> while it is blocked, is passed over. \<open>main\<close> is
  blocked until the handler has called \<^verbatim>\<open>gwServer.Shutdown\<close>: from then on
  \<^verbatim>\<open>ListenAndServe\<close> returns \<^verbatim>\<open>http.ErrServerClosed\<close>, while \<^verbatim>\<open>Shutdown\<close> itself is still
  waiting for the connections.
\<close>

datatype goroutine = GMain | GHandler | GServe

fun run_proc ::
  "bool \<Rightarrow> action list \<Rightarrow> action list \<Rightarrow> action list \<Rightarrow> goroutine list \<Rightarrow> event list \<times> nat option" where
  "run_proc started m h s [] = ([], None)"
| "run_proc started m h s (GHandler # gs) =
     (case h of
        [] \<Rightarrow> run_proc started m h s gs
      | (evs, ex) # h' \<Rightarrow>
          (case ex of
             Some n \<Rightarrow> (evs, Some n)
           | None \<Rightarrow> (let (tr, r) = run_proc True m h' s gs in (evs @ tr, r))))"
| "run_proc started m h s (GMain # gs) =
     (if \<not> started then run_proc started m h s gs
      else
        (case m of
           [] \<Rightarrow> run_proc started m h s gs
         | (evs, ex) # m' \<Rightarrow>
             (case ex of
                Some n \<Rightarrow> (evs, Some n)
              | None \<Rightarrow> (let (tr, r) = run_proc started m' h s gs in (evs @ tr, r)))))"
| "run_proc started m h s (GServe # gs) =
     (case s of
        [] \<Rightarrow> run_proc started m h s gs
      | (evs, ex) # s' \<Rightarrow>
          (case ex of
             Some n \<Rightarrow> (evs, Some n)
           | None \<Rightarrow> (let (tr, r) = run_proc started m h s' gs in (evs @ tr, r))))"

definition process_after_signal :: "shutdown \<Rightarrow> goroutine list \<Rightarrow> event list \<times> nat option" where
  "process_after_signal env sched =
     run_proc False (main_after_serve env (Some ErrServerClosed)) (handler_actions env)
       (serve_actions (grpc_Serve_res env)) sched"

text \<open>The events that are shutdown steps, and the events that open a listener.\<close>

fun is_shutdown_step :: "event \<Rightarrow> bool" where
  "is_shutdown_step (EvHTTPShutdown _) = True"
| "is_shutdown_step EvGracefulStop = True"
| "is_shutdown_step EvStoreClose = True"
| "is_shutdown_step (EvShutdownOTel _) = True"
| "is_shutdown_step (EvShutdownOTelMetrics _) = True"
| "is_shutdown_step _ = False"

fun opens_listener :: "event \<Rightarrow> bool" where
  "opens_listener (EvListen _) = True"
| "opens_listener (EvListenAndServe _) = True"
| "opens_listener _ = False"

section \<open>Properties of configuration resolution\<close>

text \<open>
  Claim C10. When a configuration value is resolved, an environment variable set to the
  empty string is treated exactly as an unset one: the default is returned; the value of
  the variable is returned only when it is non-empty. With no flag on the command line
  the database host therefore resolves to its default \<open>localhost\<close> when \<open>DB_HOST\<close> is
  empty or unset.
\<close>

theorem getEnvOrDefault_empty_is_unset:
  "getEnvOrDefault (env(key \<mapsto> [])) key d = getEnvOrDefault (env(key := None)) key d
   \<and> getEnvOrDefault (env(key \<mapsto> [])) key d = d
   \<and> (v \<noteq> [] \<longrightarrow> getEnvOrDefault (env(key \<mapsto> v)) key d = v)
   \<and> (getEnvOrDefault env key d \<noteq> d \<longrightarrow> env key = Some (getEnvOrDefault env key d) \<and> getEnvOrDefault env key d \<noteq> [])
   \<and> Host (dbConfig Map.empty (env(''DB_HOST'' \<mapsto> []))) = ''localhost''
   \<and> Host (dbConfig Map.empty (env(''DB_HOST'' := None))) = ''localhost''"
  by (auto simp: getEnvOrDefault_def Getenv_def dbConfig_def flag_String_def Let_def
      split: option.splits)

theorem getEnvOrDefault_empty_is_unset_witness:
  "getEnvOrDefault [''DB_PORT'' \<mapsto> []] ''DB_PORT'' ''5432'' = ''5432''
   \<and> getEnvOrDefault Map.empty ''DB_PORT'' ''5432'' = ''5432''
   \<and> getEnvOrDefault [''DB_PORT'' \<mapsto> ''6543''] ''DB_PORT'' ''5432'' = ''6543''"
  using getEnvOrDefault_empty_is_unset [of Map.empty "''DB_PORT''" "''5432''" "''6543''"]
  by simp

section \<open>Decoding rows\<close>

lemma ListUsers_loop_fail:
  "Rows_Scan_User bad = Inl e \<Longrightarrow> \<forall>x\<in>set pre. \<exists>u. Rows_Scan_User x = Inr u \<Longrightarrow>
   ListUsers_loop (pre @ bad # post) acc = Inl e"
  by (induction pre arbitrary: acc) auto

lemma ListUsers_loop_ok:
  "\<forall>x\<in>set rs. \<exists>u. Rows_Scan_User x = Inr u \<Longrightarrow>
   ListUsers_loop rs acc = Inr (acc @ map (\<lambda>r. projr (Rows_Scan_User r)) rs)"
  by (induction rs arbitrary: acc) auto

lemma first_bad_row:
  "r \<in> set rs \<Longrightarrow> Rows_Scan_User r = Inl e \<Longrightarrow>
   \<exists>pre bad post e'. rs = pre @ bad # post \<and> Rows_Scan_User bad = Inl e'
      \<and> (\<forall>x\<in>set pre. \<exists>u. Rows_Scan_User x = Inr u)"
proof (induction rs)
  case Nil
  then show ?case by simp
next
  case (Cons a rs)
  show ?case
  proof (cases "Rows_Scan_User a")
    case (Inl e0)
    then have "a # rs = [] @ a # rs \<and> Rows_Scan_User a = Inl e0
        \<and> (\<forall>x\<in>set []. \<exists>u. Rows_Scan_User x = Inr u)" by simp
    then show ?thesis by blast
  next
    case (Inr u)
    with Cons.prems have "r \<in> set rs" by auto
    from Cons.IH [OF this Cons.prems(2)] obtain pre bad post e'
      where h: "rs = pre @ bad # post" "Rows_Scan_User bad = Inl e'"
        "\<forall>x\<in>set pre. \<exists>u. Rows_Scan_User x = Inr u" by blast
    then have "a # rs = (a # pre) @ bad # post \<and> Rows_Scan_User bad = Inl e'
        \<and> (\<forall>x\<in>set (a # pre). \<exists>u. Rows_Scan_User x = Inr u)"
      using Inr by simp
    then show ?thesis by blast
  qed
qed


lemma row_ok_cases:
  "row_ok b r \<Longrightarrow> \<exists>i e n. r = [DInt i, DText e, DText n] \<and> 1 \<le> i \<and> i < b \<and> i \<le> int4_max"
  by (cases "(b, r)" rule: row_ok.cases) auto

lemma row_ok_mono: "row_ok b r \<Longrightarrow> b \<le> b' \<Longrightarrow> row_ok b' r"
  by (cases "(b, r)" rule: row_ok.cases) auto

lemma row_ok_pkey_below: "row_ok b r \<Longrightarrow> pkey_of r \<noteq> DInt b"
  by (auto simp: pkey_of_def dest!: row_ok_cases)

lemma schema_ok_fresh:
  assumes "schema_ok db"
  shows "DInt (seq_users_id db) \<notin> set (map pkey_of (users_tab db))"
proof
  assume "DInt (seq_users_id db) \<in> set (map pkey_of (users_tab db))"
  then obtain r where r: "r \<in> set (users_tab db)" "pkey_of r = DInt (seq_users_id db)"
    by auto
  from assms r(1) have "row_ok (seq_users_id db) r"
    by (simp add: schema_ok_def list_all_iff)
  with r(2) show False using row_ok_pkey_below by blast
qed

lemma insert_user_Inr:
  assumes "insert_user db email name = (Inr rows, db')"
  shows "text_ok email \<and> text_ok name \<and> seq_users_id db \<le> int4_max
       \<and> DInt (seq_users_id db) \<notin> set (map pkey_of (users_tab db))
       \<and> rows = \<lparr> pending = [[DInt (seq_users_id db)]], iter_err = None, close_err = None \<rparr>
       \<and> db' = db\<lparr> seq_users_id := seq_users_id db + 1,
                   users_tab := users_tab db @ [[DInt (seq_users_id db), DText email, DText name]] \<rparr>"
  using assms
  by (simp add: insert_user_def Let_def split: if_splits)

lemma insert_user_Inl:
  assumes "insert_user db email name = (Inl e, db')"
  shows "users_tab db' = users_tab db \<and> conn_err db' = conn_err db
       \<and> (seq_users_id db' = seq_users_id db \<or> seq_users_id db' = seq_users_id db + 1)"
  using assms
  by (auto simp add: insert_user_def Let_def split: if_splits)

lemma insert_user_ok:
  assumes "schema_ok db" "text_ok email" "text_ok name" "seq_users_id db \<le> int4_max"
  shows "insert_user db email name =
     (Inr \<lparr> pending = [[DInt (seq_users_id db)]], iter_err = None, close_err = None \<rparr>,
      db\<lparr> seq_users_id := seq_users_id db + 1,
          users_tab := users_tab db @ [[DInt (seq_users_id db), DText email, DText name]] \<rparr>)"
proof -
  have "\<not> seq_max < seq_users_id db"
    using assms(4) by (simp add: seq_max_def int4_max_def)
  moreover have "\<not> int4_max < seq_users_id db"
    using assms(4) by simp
  moreover note schema_ok_fresh [OF assms(1)]
  ultimately show ?thesis
    using assms(2,3) by (simp add: insert_user_def Let_def)
qed

lemma CreateUser_of_row_single:
  "CreateUser_of_row (Inr \<lparr> pending = [[DInt i]], iter_err = None, close_err = None \<rparr>) req =
     Inr (CreateUserResponse \<lparr> Id = i, Email = GetEmail req, Name = GetName req \<rparr>)"
  by (simp add: CreateUser_of_row_def Row_Err_def Row_Scan_int64_def)

lemma CreateUser_of_row_Inl: "CreateUser_of_row (Inl e) req = Inl e"
  by (simp add: CreateUser_of_row_def Row_Err_def)

lemma Service_CreateUser_Inr:
  assumes "Service_CreateUser db ctx req = (Inr resp, db')"
  shows "ctx = None \<and> conn_err db = None \<and> text_ok (GetEmail req) \<and> text_ok (GetName req)
       \<and> seq_users_id db \<le> int4_max
       \<and> DInt (seq_users_id db) \<notin> set (map pkey_of (users_tab db))
       \<and> resp = CreateUserResponse \<lparr> Id = seq_users_id db, Email = GetEmail req, Name = GetName req \<rparr>
       \<and> db' = db\<lparr> seq_users_id := seq_users_id db + 1,
                   users_tab := users_tab db @
                     [[DInt (seq_users_id db), DText (GetEmail req), DText (GetName req)]] \<rparr>"
proof -
  obtain row where q: "QueryRowContext db ctx (InsertUser (GetEmail req) (GetName req)) = (row, db')"
    and r: "CreateUser_of_row row req = Inr resp"
    using assms by (auto simp: Service_CreateUser_def split: prod.splits)
  from r obtain rows where row: "row = Inr rows"
    by (cases row) (simp_all add: CreateUser_of_row_Inl)
  from q row have c: "ctx = None" "conn_err db = None"
    and i: "insert_user db (GetEmail req) (GetName req) = (Inr rows, db')"
    by (auto simp: QueryRowContext_def QueryContext_def split: option.splits)
  note f = insert_user_Inr [OF i]
  from r row f have "resp = CreateUserResponse \<lparr> Id = seq_users_id db, Email = GetEmail req, Name = GetName req \<rparr>"
    by (simp add: CreateUser_of_row_single)
  with c f show ?thesis by simp
qed

lemma Service_CreateUser_Inl:
  assumes "Service_CreateUser db ctx req = (Inl e, db')"
  shows "users_tab db' = users_tab db \<and> conn_err db' = conn_err db
       \<and> (seq_users_id db' = seq_users_id db \<or> seq_users_id db' = seq_users_id db + 1)"
proof -
  obtain row where q: "QueryRowContext db ctx (InsertUser (GetEmail req) (GetName req)) = (row, db')"
    using assms by (auto simp: Service_CreateUser_def split: prod.splits)
  show ?thesis
  proof (cases "ctx = None \<and> conn_err db = None")
    case True
    with q have i: "insert_user db (GetEmail req) (GetName req) = (row, db')"
      by (simp add: QueryRowContext_def QueryContext_def)
    show ?thesis
    proof (cases row)
      case (Inl e0)
      with i show ?thesis using insert_user_Inl by blast
    next
      case (Inr rows)
      with i insert_user_Inr [of db "GetEmail req" "GetName req" rows db']
      have "CreateUser_of_row row req =
          Inr (CreateUserResponse \<lparr> Id = seq_users_id db, Email = GetEmail req, Name = GetName req \<rparr>)"
        by (simp add: CreateUser_of_row_single)
      with assms q show ?thesis by (simp add: Service_CreateUser_def)
    qed
  next
    case False
    with q have "db' = db"
      by (auto simp: QueryRowContext_def QueryContext_def split: option.splits)
    then show ?thesis by simp
  qed
qed

lemma Service_CreateUser_ok:
  assumes "schema_ok db" "conn_err db = None" "text_ok (GetEmail req)" "text_ok (GetName req)"
    "seq_users_id db \<le> int4_max"
  shows "Service_CreateUser db None req =
     (Inr (CreateUserResponse \<lparr> Id = seq_users_id db, Email = GetEmail req, Name = GetName req \<rparr>),
      db\<lparr> seq_users_id := seq_users_id db + 1,
          users_tab := users_tab db @
            [[DInt (seq_users_id db), DText (GetEmail req), DText (GetName req)]] \<rparr>)"
  using assms(2) insert_user_ok [OF assms(1,3,4,5)]
  by (simp add: Service_CreateUser_def QueryRowContext_def QueryContext_def CreateUser_of_row_single)

lemma schema_ok_insert:
  assumes "schema_ok db" "seq_users_id db \<le> int4_max"
  shows "schema_ok (db\<lparr> seq_users_id := seq_users_id db + 1,
          users_tab := users_tab db @ [[DInt (seq_users_id db), DText e, DText n]] \<rparr>)"
proof -
  have a: "list_all (row_ok (seq_users_id db + 1)) (users_tab db)"
    using assms(1) by (auto simp: schema_ok_def list_all_iff intro: row_ok_mono)
  have b: "row_ok (seq_users_id db + 1) [DInt (seq_users_id db), DText e, DText n]"
    using assms by (simp add: schema_ok_def)
  have c: "DInt (seq_users_id db) \<notin> set (map pkey_of (users_tab db))"
    by (rule schema_ok_fresh [OF assms(1)])
  have d: "distinct (map pkey_of (users_tab db))" "1 \<le> seq_users_id db"
    using assms(1) by (simp_all add: schema_ok_def)
  show ?thesis
    using a b c d by (simp add: schema_ok_def pkey_of_def)
qed

lemma schema_ok_seq_mono:
  assumes "schema_ok db" "users_tab db' = users_tab db" "seq_users_id db \<le> seq_users_id db'"
  shows "schema_ok db'"
  using assms by (auto simp: schema_ok_def list_all_iff intro: row_ok_mono)


lemma row_ok_Scan_Id:
  "row_ok b r \<Longrightarrow> \<exists>u. Rows_Scan_User r = Inr u \<and> 1 \<le> Id u \<and> Id u < b"
  by (auto simp: Rows_Scan_User_def dest!: row_ok_cases)

lemma Service_ListUsers_ok:
  assumes "schema_ok db" "conn_err db = None"
  shows "Service_ListUsers db None req =
     (Inr (ListUsersResponse (map (\<lambda>r. projr (Rows_Scan_User r)) (users_tab db))), db)"
proof -
  have "\<forall>x\<in>set (users_tab db). \<exists>u. Rows_Scan_User x = Inr u"
    using assms(1) row_ok_Scan_Id by (fastforce simp: schema_ok_def list_all_iff)
  from ListUsers_loop_ok [OF this, of "[]"] assms(2) show ?thesis
    by (simp add: Service_ListUsers_def QueryContext_def ListUsers_of_rows_def)
qed


section \<open>Runs keep the schema\<close>

lemma Service_ListUsers_state: "snd (Service_ListUsers db ctx req) = db"
  by (simp add: Service_ListUsers_def QueryContext_def split: option.splits)

lemma Service_CreateUser_Inl_consumed:
  assumes "schema_ok db" and "Service_CreateUser db ctx req = (Inl e, db')"
    and "seq_users_id db' \<noteq> seq_users_id db"
  shows "int4_max < seq_users_id db"
proof (rule ccontr)
  assume n: "\<not> int4_max < seq_users_id db"
  show False
  proof (cases "ctx = None \<and> conn_err db = None \<and> text_ok (GetEmail req) \<and> text_ok (GetName req)")
    case True
    with n assms(1) have "Service_CreateUser db None req =
       (Inr (CreateUserResponse \<lparr> Id = seq_users_id db, Email = GetEmail req, Name = GetName req \<rparr>),
        db\<lparr> seq_users_id := seq_users_id db + 1,
          users_tab := users_tab db @
            [[DInt (seq_users_id db), DText (GetEmail req), DText (GetName req)]] \<rparr>)"
      by (intro Service_CreateUser_ok) simp_all
    with True assms(2) show False by simp
  next
    case False
    then have "snd (Service_CreateUser db ctx req) = db"
      by (auto simp: Service_CreateUser_def QueryRowContext_def QueryContext_def insert_user_def
          split: option.splits)
    with assms(2,3) show False by simp
  qed
qed

lemma step_facts:
  assumes "schema_ok db" and "step db x = (db', a)"
  shows "schema_ok db'
    \<and> (case a of
          Some i \<Rightarrow> i = seq_users_id db \<and> seq_users_id db' = i + 1 \<and> i \<le> int4_max
            \<and> (\<exists>e n. users_tab db' = users_tab db @ [[DInt i, DText e, DText n]])
        | None \<Rightarrow> users_tab db' = users_tab db
            \<and> (seq_users_id db' = seq_users_id db
               \<or> seq_users_id db' = seq_users_id db + 1 \<and> int4_max < seq_users_id db))"
proof (cases x)
  case (OpCreateUser ctx req)
  show ?thesis
  proof (cases "fst (Service_CreateUser db ctx req)")
    case (Inl e)
    then have c: "Service_CreateUser db ctx req = (Inl e, db')" and a: "a = None"
      using assms(2) OpCreateUser by (auto split: prod.splits)
    note f = Service_CreateUser_Inl [OF c]
    have s: "seq_users_id db' = seq_users_id db
        \<or> seq_users_id db' = seq_users_id db + 1 \<and> int4_max < seq_users_id db"
      using f Service_CreateUser_Inl_consumed [OF assms(1) c] by auto
    have "schema_ok db'"
      using f by (intro schema_ok_seq_mono [OF assms(1)]) auto
    with a f s show ?thesis by simp
  next
    case (Inr resp)
    then have c: "Service_CreateUser db ctx req = (Inr resp, db')" and a: "a = Some (Id (GetUser resp))"
      using assms(2) OpCreateUser by (auto split: prod.splits)
    note f = Service_CreateUser_Inr [OF c]
    have "schema_ok db'"
      using f schema_ok_insert [OF assms(1), of "GetEmail req" "GetName req"] by simp
    with a f show ?thesis by simp
  qed
next
  case (OpListUsers ctx)
  with assms show ?thesis by (auto simp: Service_ListUsers_state)
next
  case (OpConn e)
  with assms show ?thesis by (auto simp: schema_ok_def)
qed

lemma run_exhausted:
  "schema_ok db \<Longrightarrow> int4_max < seq_users_id db \<Longrightarrow> run db ops = (db', ids) \<Longrightarrow> ids = []"
proof (induction ops arbitrary: db db' ids)
  case Nil
  then show ?case by simp
next
  case (Cons x xs)
  obtain db1 a where s: "step db x = (db1, a)" by (cases "step db x")
  obtain db2 ids2 where r: "run db1 xs = (db2, ids2)" by (cases "run db1 xs")
  from step_facts [OF Cons.prems(1) s] Cons.prems(2)
  have ok: "schema_ok db1" and a: "a = None" and lt: "int4_max < seq_users_id db1"
    by (auto split: option.splits)
  from Cons.IH [OF ok lt r] have "ids2 = []" .
  with Cons.prems(3) s r a show ?case by simp
qed

lemma run_ids:
  "schema_ok db \<Longrightarrow> run db ops = (db', ids) \<Longrightarrow>
     schema_ok db'
   \<and> ids = [seq_users_id db .. seq_users_id db + int (length ids) - 1]
   \<and> seq_users_id db + int (length ids) \<le> seq_users_id db'
   \<and> (\<exists>ys. users_tab db' = users_tab db @ ys \<and> map pkey_of ys = map DInt ids)"
proof (induction ops arbitrary: db db' ids)
  case Nil
  then show ?case by simp
next
  case (Cons x xs)
  obtain db1 a where s: "step db x = (db1, a)" by (cases "step db x")
  obtain db2 ids2 where r: "run db1 xs = (db2, ids2)" by (cases "run db1 xs")
  note f = step_facts [OF Cons.prems(1) s]
  then have ok: "schema_ok db1" by simp
  note ih = Cons.IH [OF ok r]
  show ?case
  proof (cases a)
    case None
    with Cons.prems(2) s r have e: "db' = db2" "ids = ids2" by simp_all
    from f None have t: "users_tab db1 = users_tab db" by simp
    from f None consider "seq_users_id db1 = seq_users_id db"
      | "seq_users_id db1 = seq_users_id db + 1" "int4_max < seq_users_id db" by auto
    then show ?thesis
    proof cases
      case 1
      with ih e t show ?thesis by simp
    next
      case 2
      then have "int4_max < seq_users_id db1" by simp
      from run_exhausted [OF ok this r] have "ids2 = []" .
      with ih e t 2 show ?thesis by simp
    qed
  next
    case (Some i)
    with Cons.prems(2) s r have e: "db' = db2" "ids = i # ids2" by simp_all
    from f Some have i: "i = seq_users_id db" "seq_users_id db1 = i + 1"
      and t: "\<exists>e n. users_tab db1 = users_tab db @ [[DInt i, DText e, DText n]]" by auto
    from ih obtain ys where ys: "users_tab db2 = users_tab db1 @ ys" "map pkey_of ys = map DInt ids2"
      by blast
    from t obtain em nm where t': "users_tab db1 = users_tab db @ [[DInt i, DText em, DText nm]]"
      by blast
    have tab: "users_tab db2 = users_tab db @ ([DInt i, DText em, DText nm] # ys)
        \<and> map pkey_of ([DInt i, DText em, DText nm] # ys) = map DInt (i # ids2)"
      using ys t' by (simp add: pkey_of_def)
    have "ids2 = [i + 1 .. i + int (length ids2)]"
      using ih i by simp
    then have "i # ids2 = [i .. i + int (length ids2)]"
      by (subst upto_rec1) simp_all
    then have u: "ids = [seq_users_id db .. seq_users_id db + int (length ids) - 1]"
      using e i by simp
    have "seq_users_id db + int (length ids) \<le> seq_users_id db'"
      using ih e i by simp
    with ih e u tab show ?thesis by blast
  qed
qed

lemma run_append:
  "run db (xs @ ys) =
     (let (db1, ids1) = run db xs; (db2, ids2) = run db1 ys in (db2, ids1 @ ids2))"
  by (induction xs arbitrary: db) (auto split: prod.splits)

lemma schema_ok_migrated: "schema_ok migrated"
  by (simp add: schema_ok_def migrated_def)

lemma Database_CreateUser_eq: "Database_CreateUser db ctx req = Service_CreateUser db ctx req"
  by (simp add: Database_CreateUser_def Service_CreateUser_def)

lemma CreateUser_of_row_Inr:
  assumes "CreateUser_of_row row req = Inr resp"
  shows "Email (GetUser resp) = GetEmail req \<and> Name (GetUser resp) = GetName req
    \<and> (\<exists>rows c rest. row = Inr rows \<and> pending rows = [c] # rest
          \<and> convertAssign_int64 c = Inr (Id (GetUser resp)))"
proof (cases row)
  case (Inl e)
  with assms show ?thesis by (simp add: CreateUser_of_row_Inl)
next
  case (Inr rows)
  with assms obtain i where s: "Row_Scan_int64 (Inr rows) = Inr i"
    and r: "resp = CreateUserResponse \<lparr> Id = i, Email = GetEmail req, Name = GetName req \<rparr>"
    by (auto simp: CreateUser_of_row_def Row_Err_def split: sum.splits)
  from s obtain c rest where "pending rows = [c] # rest" "convertAssign_int64 c = Inr i"
    by (auto simp: Row_Scan_int64_def split: list.splits sum.splits option.splits)
  with Inr r show ?thesis by simp
qed

section \<open>Properties of the users service\<close>

text \<open>
  Claim C1. On a store that fits the schema, with a usable connection and an identifier
  still available in the INTEGER column, \<^verbatim>\<open>CreateUser\<close> with a valid email and name
  succeeds, and the \<^verbatim>\<open>ListUsers\<close> that follows returns the users listed before followed by
  the created one. Exactly one listed entity has that email, that name and an identifier
  that no listed user had before; it is the returned user, and its identifier is greater
  than every identifier that was in the table.
\<close>

theorem CreateUser_then_ListUsers:
  assumes "schema_ok db" and "conn_err db = None" and "seq_users_id db \<le> int4_max"
    and "text_ok email" and "text_ok name"
  shows "\<exists>resp db' before after.
      Service_CreateUser db None (Some \<lparr> req_Email = email, req_Name = name \<rparr>) = (Inr resp, db')
    \<and> Service_ListUsers db None lreq = (Inr (ListUsersResponse before), db)
    \<and> Service_ListUsers db' None lreq = (Inr (ListUsersResponse after), db')
    \<and> GetUser resp = \<lparr> Id = seq_users_id db, Email = email, Name = name \<rparr>
    \<and> after = before @ [GetUser resp]
    \<and> (\<forall>u\<in>set before. Id u < Id (GetUser resp))
    \<and> filter (\<lambda>u. Email u = email \<and> Name u = name \<and> Id u \<notin> Id ` set before) after
        = [GetUser resp]"
proof -
  let ?req = "Some \<lparr> req_Email = email, req_Name = name \<rparr>"
  let ?new = "\<lparr> Id = seq_users_id db, Email = email, Name = name \<rparr>"
  let ?db' = "db\<lparr> seq_users_id := seq_users_id db + 1,
      users_tab := users_tab db @ [[DInt (seq_users_id db), DText email, DText name]] \<rparr>"
  let ?f = "\<lambda>r. projr (Rows_Scan_User r)"
  let ?before = "map ?f (users_tab db)"
  have g: "GetEmail ?req = email" "GetName ?req = name"
    by (simp_all add: GetEmail_def GetName_def)
  have c: "Service_CreateUser db None ?req = (Inr (CreateUserResponse ?new), ?db')"
    using Service_CreateUser_ok [of db ?req] assms unfolding g by simp
  have ok': "schema_ok ?db'"
    by (rule schema_ok_insert [OF assms(1,3)])
  have l0: "Service_ListUsers db None lreq = (Inr (ListUsersResponse ?before), db)"
    by (rule Service_ListUsers_ok [OF assms(1,2)])
  have n: "?f [DInt (seq_users_id db), DText email, DText name] = ?new"
    by (simp add: Rows_Scan_User_def)
  have l1: "Service_ListUsers ?db' None lreq = (Inr (ListUsersResponse (?before @ [?new])), ?db')"
    using Service_ListUsers_ok [OF ok', of lreq] assms(2) n by simp
  have lt: "\<forall>u\<in>set ?before. Id u < seq_users_id db"
  proof
    fix u assume "u \<in> set ?before"
    then obtain r where r: "r \<in> set (users_tab db)" "u = ?f r" by auto
    from assms(1) r(1) have "row_ok (seq_users_id db) r"
      by (simp add: schema_ok_def list_all_iff)
    from row_ok_Scan_Id [OF this] r(2) show "Id u < seq_users_id db" by auto
  qed
  have fl: "filter (\<lambda>u. Email u = email \<and> Name u = name \<and> Id u \<notin> Id ` set ?before)
      (?before @ [?new]) = [?new]"
  proof -
    have "filter (\<lambda>u. Email u = email \<and> Name u = name \<and> Id u \<notin> Id ` set ?before) ?before = []"
      by (simp add: filter_empty_conv)
    moreover have "seq_users_id db \<notin> Id ` set ?before"
      using lt by force
    ultimately show ?thesis by simp
  qed
  show ?thesis
    using c l0 l1 lt fl by (intro exI [of _ "CreateUserResponse ?new"] exI [of _ ?db']
        exI [of _ ?before] exI [of _ "?before @ [?new]"]) simp
qed



theorem CreateUser_then_ListUsers_witness:
  "schema_ok \<lparr> conn_err = None, seq_users_id = 2,
       users_tab = [[DInt 1, DText ''jdoe@example.com'', DText ''John Doe'']] \<rparr>
   \<and> text_ok ''jdoe@example.com'' \<and> text_ok ''John Doe''
   \<and> (\<exists>resp db' before after.
      Service_CreateUser \<lparr> conn_err = None, seq_users_id = 2,
          users_tab = [[DInt 1, DText ''jdoe@example.com'', DText ''John Doe'']] \<rparr> None
        (Some \<lparr> req_Email = ''jdoe@example.com'', req_Name = ''John Doe'' \<rparr>) = (Inr resp, db')
    \<and> Service_ListUsers db' None None = (Inr (ListUsersResponse after), db')
    \<and> GetUser resp = \<lparr> Id = 2, Email = ''jdoe@example.com'', Name = ''John Doe'' \<rparr>
    \<and> after = before @ [GetUser resp]
    \<and> filter (\<lambda>u. Email u = ''jdoe@example.com'' \<and> Name u = ''John Doe''
          \<and> Id u \<notin> Id ` set before) after = [GetUser resp])"
proof -
  let ?db = "\<lparr> conn_err = None, seq_users_id = 2,
       users_tab = [[DInt 1, DText ''jdoe@example.com'', DText ''John Doe'']] \<rparr>"
  have h1: "schema_ok ?db" by (simp add: schema_ok_def pkey_of_def int4_max_def)
  have h2: "conn_err ?db = None" by simp
  have h3: "seq_users_id ?db \<le> int4_max" by (simp add: int4_max_def)
  have h4: "text_ok ''jdoe@example.com''" by (simp add: text_ok_def)
  have h5: "text_ok ''John Doe''" by (simp add: text_ok_def)
  from CreateUser_then_ListUsers [OF h1 h2 h3 h4 h5, of None]
  obtain resp db' before after where
      "Service_CreateUser ?db None
        (Some \<lparr> req_Email = ''jdoe@example.com'', req_Name = ''John Doe'' \<rparr>) = (Inr resp, db')"
      "Service_ListUsers db' None None = (Inr (ListUsersResponse after), db')"
      "GetUser resp = \<lparr> Id = seq_users_id ?db, Email = ''jdoe@example.com'', Name = ''John Doe'' \<rparr>"
      "after = before @ [GetUser resp]"
      "filter (\<lambda>u. Email u = ''jdoe@example.com'' \<and> Name u = ''John Doe''
          \<and> Id u \<notin> Id ` set before) after = [GetUser resp]"
    by blast
  then show ?thesis using h1 h4 h5 by auto
qed

text \<open>
  Claim C2. A \<^verbatim>\<open>CreateUser\<close> that succeeds returns a user whose email and name are those of
  the request and whose id is the value scanned from the first column of the row the
  insert statement returned. On the store that value is the identifier the sequence
  assigned to the inserted row, and the row \<open>(id, email, name)\<close> is in the table afterwards.
  This holds for \<^verbatim>\<open>Service.CreateUser\<close> and for \<^verbatim>\<open>Database.CreateUser\<close>.
\<close>

theorem CreateUser_returns_populated_user:
  "(CreateUser_of_row row req = Inr resp \<longrightarrow>
      Email (GetUser resp) = GetEmail req \<and> Name (GetUser resp) = GetName req
      \<and> (\<exists>rows c rest. row = Inr rows \<and> pending rows = [c] # rest
            \<and> convertAssign_int64 c = Inr (Id (GetUser resp))))
   \<and> (Service_CreateUser db ctx req = (Inr resp, db') \<or> Database_CreateUser db ctx req = (Inr resp, db') \<longrightarrow>
      GetUser resp = \<lparr> Id = seq_users_id db, Email = GetEmail req, Name = GetName req \<rparr>
      \<and> users_tab db' = users_tab db @
           [[DInt (Id (GetUser resp)), DText (GetEmail req), DText (GetName req)]])"
proof (intro conjI impI)
  assume "Service_CreateUser db ctx req = (Inr resp, db') \<or> Database_CreateUser db ctx req = (Inr resp, db')"
  then have c: "Service_CreateUser db ctx req = (Inr resp, db')"
    by (simp add: Database_CreateUser_eq)
  note f = Service_CreateUser_Inr [OF c]
  from f show "GetUser resp = \<lparr> Id = seq_users_id db, Email = GetEmail req, Name = GetName req \<rparr>"
    by simp
  from f show "users_tab db' = users_tab db @
           [[DInt (Id (GetUser resp)), DText (GetEmail req), DText (GetName req)]]"
    by simp
qed (use CreateUser_of_row_Inr in blast)+

theorem CreateUser_returns_populated_user_witness:
  "CreateUser_of_row (Inr \<lparr> pending = [[DText ''42'']], iter_err = None, close_err = None \<rparr>)
       (Some \<lparr> req_Email = ''john.doe@example.com'', req_Name = ''John Doe'' \<rparr>)
     = Inr (CreateUserResponse \<lparr> Id = 42, Email = ''john.doe@example.com'', Name = ''John Doe'' \<rparr>)
   \<and> (\<exists>rows c rest.
        (Inr \<lparr> pending = [[DText ''42'']], iter_err = None, close_err = None \<rparr> :: Row) = Inr rows
        \<and> pending rows = [c] # rest \<and> convertAssign_int64 c = Inr 42)
   \<and> Service_CreateUser migrated None
       (Some \<lparr> req_Email = ''john.doe@example.com'', req_Name = ''John Doe'' \<rparr>)
     = (Inr (CreateUserResponse \<lparr> Id = 1, Email = ''john.doe@example.com'', Name = ''John Doe'' \<rparr>),
        \<lparr> conn_err = None, seq_users_id = 2,
          users_tab = [[DInt 1, DText ''john.doe@example.com'', DText ''John Doe'']] \<rparr>)
   \<and> seq_users_id migrated = 1"
proof -
  let ?row = "Inr \<lparr> pending = [[DText ''42'']], iter_err = None, close_err = None \<rparr> :: Row"
  let ?req = "Some \<lparr> req_Email = ''john.doe@example.com'', req_Name = ''John Doe'' \<rparr>"
  let ?resp = "CreateUserResponse \<lparr> Id = 42, Email = ''john.doe@example.com'', Name = ''John Doe'' \<rparr>"
  let ?resp1 = "CreateUserResponse \<lparr> Id = 1, Email = ''john.doe@example.com'', Name = ''John Doe'' \<rparr>"
  let ?db1 = "\<lparr> conn_err = None, seq_users_id = 2,
          users_tab = [[DInt 1, DText ''john.doe@example.com'', DText ''John Doe'']] \<rparr>"
  have h: "CreateUser_of_row ?row ?req = Inr ?resp"
    by (simp add: CreateUser_of_row_def Row_Err_def Row_Scan_int64_def ParseInt_def digit_of_def
        GetEmail_def GetName_def Let_def)
  have k: "Service_CreateUser migrated None ?req = (Inr ?resp1, ?db1)"
    by (simp add: migrated_def Service_CreateUser_def QueryRowContext_def QueryContext_def
        insert_user_def CreateUser_of_row_def Row_Err_def Row_Scan_int64_def
        GetEmail_def GetName_def text_ok_def int4_max_def seq_max_def Let_def)
  from CreateUser_returns_populated_user [of ?row ?req ?resp]
    CreateUser_returns_populated_user [of _ ?req ?resp1 migrated None ?db1] h k
  show ?thesis by simp
qed

text \<open>
  Claim C3. When a row of the result set cannot be decoded (for instance a non-numeric
  identifier column), \<^verbatim>\<open>ListUsers\<close> returns an error and no sequence: the error is the
  decoding error of the first such row, the rows decoded before it are not returned and
  the row is not skipped. The same holds on the store for \<^verbatim>\<open>Service.ListUsers\<close> and
  \<^verbatim>\<open>Database.GetUsers\<close> whenever the table holds such a row.
\<close>

theorem ListUsers_fails_on_undecodable_row:
  assumes "r \<in> set rs" and "Rows_Scan_User r = Inl e"
  shows "(\<exists>e' pre bad post.
            ListUsers_of_rows (Inr \<lparr> pending = rs, iter_err = ie, close_err = ce \<rparr>) = Inl e'
          \<and> rs = pre @ bad # post \<and> Rows_Scan_User bad = Inl e'
          \<and> (\<forall>x\<in>set pre. \<exists>u. Rows_Scan_User x = Inr u))
       \<and> (users_tab db = rs \<longrightarrow>
            (\<exists>e'. fst (Service_ListUsers db ctx req) = Inl e' \<and> fst (Database_GetUsers db ctx) = Inl e'))"
proof -
  from first_bad_row [OF assms] obtain pre bad post e'
    where h: "rs = pre @ bad # post" "Rows_Scan_User bad = Inl e'"
      "\<forall>x\<in>set pre. \<exists>u. Rows_Scan_User x = Inr u" by blast
  have l: "ListUsers_loop rs [] = Inl e'"
    unfolding h(1) by (rule ListUsers_loop_fail [OF h(2,3)])
  then have a: "ListUsers_of_rows (Inr \<lparr> pending = rs, iter_err = ie, close_err = ce \<rparr>) = Inl e'"
    by (simp add: ListUsers_of_rows_def)
  have b: "\<exists>e'. fst (Service_ListUsers db ctx req) = Inl e' \<and> fst (Database_GetUsers db ctx) = Inl e'"
    if "users_tab db = rs"
    using that l
    by (auto simp: Database_GetUsers_def Service_ListUsers_def QueryContext_def ListUsers_of_rows_def
        split: option.splits)
  from a h b show ?thesis by blast
qed

theorem ListUsers_fails_on_undecodable_row_witness:
  "[DText ''invalid'', DText ''test@example.com'', DText ''Test'']
      \<in> set [[DInt 1, DText ''john.doe@example.com'', DText ''John Doe''],
              [DText ''invalid'', DText ''test@example.com'', DText ''Test''],
              [DInt 3, DText ''jane.smith@example.com'', DText ''Jane Smith'']]
   \<and> Rows_Scan_User [DText ''invalid'', DText ''test@example.com'', DText ''Test'']
        = Inl (ScanError 0 ''invalid syntax'')
   \<and> (\<exists>e'. ListUsers_of_rows (Inr \<lparr> pending =
             [[DInt 1, DText ''john.doe@example.com'', DText ''John Doe''],
              [DText ''invalid'', DText ''test@example.com'', DText ''Test''],
              [DInt 3, DText ''jane.smith@example.com'', DText ''Jane Smith'']],
           iter_err = None, close_err = None \<rparr>) = Inl e')
   \<and> (\<exists>e'. fst (Service_ListUsers \<lparr> conn_err = None, seq_users_id = 4, users_tab =
             [[DInt 1, DText ''john.doe@example.com'', DText ''John Doe''],
              [DText ''invalid'', DText ''test@example.com'', DText ''Test''],
              [DInt 3, DText ''jane.smith@example.com'', DText ''Jane Smith'']] \<rparr>
           None (Some ListUsersRequest)) = Inl e')"
proof -
  let ?bad = "[DText ''invalid'', DText ''test@example.com'', DText ''Test'']"
  let ?rs = "[[DInt 1, DText ''john.doe@example.com'', DText ''John Doe''], ?bad,
              [DInt 3, DText ''jane.smith@example.com'', DText ''Jane Smith'']]"
  have h1: "?bad \<in> set ?rs" by simp
  have h2: "Rows_Scan_User ?bad = Inl (ScanError 0 ''invalid syntax'')"
    by (simp add: Rows_Scan_User_def ParseInt_def digit_of_def Let_def)
  have h3: "users_tab \<lparr> conn_err = None, seq_users_id = 4, users_tab = ?rs \<rparr> = ?rs" by simp
  from ListUsers_fails_on_undecodable_row [OF h1 h2, of None None
      "\<lparr> conn_err = None, seq_users_id = 4, users_tab = ?rs \<rparr>" None "Some ListUsersRequest"] h1 h2 h3
  show ?thesis by blast
qed

text \<open>
  Claim C4. Two \<^verbatim>\<open>CreateUser\<close> calls in sequence with the same valid email and name both
  succeed, whatever emails the table already holds, and the two returned users carry
  different identifiers; both rows are in the table afterwards.
\<close>

theorem duplicate_CreateUser_distinct_ids:
  assumes "schema_ok db" and "conn_err db = None" and "seq_users_id db < int4_max"
    and "text_ok email" and "text_ok name"
  shows "\<exists>r1 db1 r2 db2.
      Service_CreateUser db None (Some \<lparr> req_Email = email, req_Name = name \<rparr>) = (Inr r1, db1)
    \<and> Service_CreateUser db1 None (Some \<lparr> req_Email = email, req_Name = name \<rparr>) = (Inr r2, db2)
    \<and> Id (GetUser r1) \<noteq> Id (GetUser r2)
    \<and> Email (GetUser r1) = email \<and> Name (GetUser r1) = name
    \<and> Email (GetUser r2) = email \<and> Name (GetUser r2) = name
    \<and> users_tab db2 = users_tab db @
         [[DInt (Id (GetUser r1)), DText email, DText name],
          [DInt (Id (GetUser r2)), DText email, DText name]]"
proof -
  let ?req = "Some \<lparr> req_Email = email, req_Name = name \<rparr>"
  let ?db1 = "db\<lparr> seq_users_id := seq_users_id db + 1,
      users_tab := users_tab db @ [[DInt (seq_users_id db), DText email, DText name]] \<rparr>"
  let ?db2 = "?db1\<lparr> seq_users_id := seq_users_id ?db1 + 1,
      users_tab := users_tab ?db1 @ [[DInt (seq_users_id ?db1), DText email, DText name]] \<rparr>"
  have g: "GetEmail ?req = email" "GetName ?req = name"
    by (simp_all add: GetEmail_def GetName_def)
  have le: "seq_users_id db \<le> int4_max" using assms(3) by simp
  have c1: "Service_CreateUser db None ?req =
      (Inr (CreateUserResponse \<lparr> Id = seq_users_id db, Email = email, Name = name \<rparr>), ?db1)"
    using Service_CreateUser_ok [of db ?req] assms(1,2,4,5) le unfolding g by simp
  have ok1: "schema_ok ?db1"
    by (rule schema_ok_insert [OF assms(1) le])
  have c2: "Service_CreateUser ?db1 None ?req =
      (Inr (CreateUserResponse \<lparr> Id = seq_users_id ?db1, Email = email, Name = name \<rparr>), ?db2)"
    using Service_CreateUser_ok [OF ok1, of ?req] assms(2,3,4,5) unfolding g by simp
  show ?thesis
    using c1 c2
    by (intro exI [of _ "CreateUserResponse \<lparr> Id = seq_users_id db, Email = email, Name = name \<rparr>"]
        exI [of _ ?db1]
        exI [of _ "CreateUserResponse \<lparr> Id = seq_users_id ?db1, Email = email, Name = name \<rparr>"]
        exI [of _ ?db2]) simp
qed

theorem duplicate_CreateUser_distinct_ids_witness:
  "schema_ok \<lparr> conn_err = None, seq_users_id = 2,
       users_tab = [[DInt 1, DText ''jdoe@example.com'', DText ''John Doe'']] \<rparr>
   \<and> text_ok ''jdoe@example.com'' \<and> text_ok ''John Doe''
   \<and> (\<exists>r1 db1 r2 db2.
      Service_CreateUser \<lparr> conn_err = None, seq_users_id = 2,
          users_tab = [[DInt 1, DText ''jdoe@example.com'', DText ''John Doe'']] \<rparr> None
        (Some \<lparr> req_Email = ''jdoe@example.com'', req_Name = ''John Doe'' \<rparr>) = (Inr r1, db1)
    \<and> Service_CreateUser db1 None
        (Some \<lparr> req_Email = ''jdoe@example.com'', req_Name = ''John Doe'' \<rparr>) = (Inr r2, db2)
    \<and> Id (GetUser r1) \<noteq> Id (GetUser r2))"
proof -
  let ?db = "\<lparr> conn_err = None, seq_users_id = 2,
       users_tab = [[DInt 1, DText ''jdoe@example.com'', DText ''John Doe'']] \<rparr>"
  have h1: "schema_ok ?db" by (simp add: schema_ok_def pkey_of_def int4_max_def)
  have h2: "conn_err ?db = None" by simp
  have h3: "seq_users_id ?db < int4_max" by (simp add: int4_max_def)
  have h4: "text_ok ''jdoe@example.com''" by (simp add: text_ok_def)
  have h5: "text_ok ''John Doe''" by (simp add: text_ok_def)
  from duplicate_CreateUser_distinct_ids [OF h1 h2 h3 h4 h5]
  obtain r1 db1 r2 db2 where
      "Service_CreateUser ?db None
        (Some \<lparr> req_Email = ''jdoe@example.com'', req_Name = ''John Doe'' \<rparr>) = (Inr r1, db1)"
      "Service_CreateUser db1 None
        (Some \<lparr> req_Email = ''jdoe@example.com'', req_Name = ''John Doe'' \<rparr>) = (Inr r2, db2)"
      "Id (GetUser r1) \<noteq> Id (GetUser r2)"
    by blast
  then show ?thesis using h1 h4 h5 by blast
qed

text \<open>
  Claim C5. A result set without rows makes \<^verbatim>\<open>ListUsers\<close> return the empty sequence and no
  error; on the store, with a live context and a usable connection, an empty users table
  gives the empty sequence and no error, for \<^verbatim>\<open>Service.ListUsers\<close> and \<^verbatim>\<open>Database.GetUsers\<close>.
\<close>

theorem ListUsers_empty_table:
  "ListUsers_of_rows (Inr \<lparr> pending = [], iter_err = ie, close_err = ce \<rparr>) = Inr (ListUsersResponse [])
   \<and> (users_tab db = [] \<and> conn_err db = None \<longrightarrow>
        Service_ListUsers db None req = (Inr (ListUsersResponse []), db)
      \<and> Database_GetUsers db None = (Inr (ListUsersResponse []), db))"
  by (simp add: ListUsers_of_rows_def Service_ListUsers_def Database_GetUsers_def QueryContext_def)

theorem ListUsers_empty_table_witness:
  "users_tab migrated = [] \<and> conn_err migrated = None
   \<and> Service_ListUsers migrated None (Some ListUsersRequest) = (Inr (ListUsersResponse []), migrated)
   \<and> Database_GetUsers migrated None = (Inr (ListUsersResponse []), migrated)"
proof -
  have h: "users_tab migrated = [] \<and> conn_err migrated = None"
    by (simp add: migrated_def)
  from ListUsers_empty_table [of None None migrated "Some ListUsersRequest"] h
  show ?thesis by simp
qed

text \<open>
  Claim C6. In every run of operations on the freshly migrated store, the identifiers that
  \<^verbatim>\<open>CreateUser\<close> returns are \<open>1, 2, 3, \<dots>\<close> in call order: the first is 1 and each is
  greater than all before it, so none is reused. They are exactly the identifiers of the
  rows in the table. However the run continues, the rows already in the table stay as they
  are, and every identifier assigned later is greater than every one assigned so far.
\<close>

theorem identifiers_increase_from_one:
  assumes "run migrated ops = (db, ids)"
  shows "ids = [1 .. int (length ids)]
       \<and> sorted_wrt (<) ids \<and> distinct ids
       \<and> map pkey_of (users_tab db) = map DInt ids
       \<and> (\<forall>ops' db' ids'. run db ops' = (db', ids') \<longrightarrow>
             run migrated (ops @ ops') = (db', ids @ ids')
           \<and> (\<exists>ys. users_tab db' = users_tab db @ ys)
           \<and> (\<forall>i\<in>set ids. \<forall>j\<in>set ids'. i < j))"
proof -
  note f = run_ids [OF schema_ok_migrated assms]
  have s1: "seq_users_id migrated = 1" "users_tab migrated = []"
    by (simp_all add: migrated_def)
  from f s1 have ids: "ids = [1 .. int (length ids)]" by simp
  have srt: "sorted_wrt (<) ids" "distinct ids"
    by (subst ids, rule sorted_wrt_upto) (subst ids, rule distinct_upto)
  from f s1 have tab: "map pkey_of (users_tab db) = map DInt ids" by auto
  from f have ok: "schema_ok db" and sq: "1 + int (length ids) \<le> seq_users_id db"
    using s1 by simp_all
  have cont: "run migrated (ops @ ops') = (db', ids @ ids')
           \<and> (\<exists>ys. users_tab db' = users_tab db @ ys)
           \<and> (\<forall>i\<in>set ids. \<forall>j\<in>set ids'. i < j)"
    if r: "run db ops' = (db', ids')" for ops' db' ids'
  proof -
    note g = run_ids [OF ok r]
    have a: "run migrated (ops @ ops') = (db', ids @ ids')"
      using assms r by (simp add: run_append)
    have b: "\<exists>ys. users_tab db' = users_tab db @ ys" using g by blast
    have c: "\<forall>i\<in>set ids. \<forall>j\<in>set ids'. i < j"
    proof (intro ballI)
      fix i j assume "i \<in> set ids" "j \<in> set ids'"
      then have "i \<in> set [1 .. int (length ids)]"
        and "j \<in> set [seq_users_id db .. seq_users_id db + int (length ids') - 1]"
        using ids g by simp_all
      then have "i \<le> int (length ids)" "seq_users_id db \<le> j" by simp_all
      with sq show "i < j" by simp
    qed
    from a b c show ?thesis by simp
  qed
  from ids srt tab cont show ?thesis by blast
qed

theorem identifiers_increase_from_one_witness:
  "run migrated
     [OpCreateUser None (Some \<lparr> req_Email = ''a@x.org'', req_Name = ''A'' \<rparr>),
      OpConn (Some (DriverError ''connection refused'')),
      OpCreateUser None (Some \<lparr> req_Email = ''b@x.org'', req_Name = ''B'' \<rparr>),
      OpConn None,
      OpListUsers None,
      OpCreateUser (Some ContextCanceled) (Some \<lparr> req_Email = ''c@x.org'', req_Name = ''C'' \<rparr>),
      OpCreateUser None (Some \<lparr> req_Email = ''a@x.org'', req_Name = ''A'' \<rparr>)]
   = (\<lparr> conn_err = None, seq_users_id = 3,
        users_tab = [[DInt 1, DText ''a@x.org'', DText ''A''], [DInt 2, DText ''a@x.org'', DText ''A'']] \<rparr>,
      [1, 2])
   \<and> [1, 2] = [1 .. int (length [1, 2 :: int])]
   \<and> sorted_wrt (<) [1, 2 :: int]"
proof -
  have h: "run migrated
     [OpCreateUser None (Some \<lparr> req_Email = ''a@x.org'', req_Name = ''A'' \<rparr>),
      OpConn (Some (DriverError ''connection refused'')),
      OpCreateUser None (Some \<lparr> req_Email = ''b@x.org'', req_Name = ''B'' \<rparr>),
      OpConn None,
      OpListUsers None,
      OpCreateUser (Some ContextCanceled) (Some \<lparr> req_Email = ''c@x.org'', req_Name = ''C'' \<rparr>),
      OpCreateUser None (Some \<lparr> req_Email = ''a@x.org'', req_Name = ''A'' \<rparr>)]
   = (\<lparr> conn_err = None, seq_users_id = 3,
        users_tab = [[DInt 1, DText ''a@x.org'', DText ''A''], [DInt 2, DText ''a@x.org'', DText ''A'']] \<rparr>,
      [1, 2])"
    by (simp add: migrated_def Service_CreateUser_def Service_ListUsers_def QueryRowContext_def
        QueryContext_def insert_user_def CreateUser_of_row_def Row_Err_def Row_Scan_int64_def
        GetEmail_def GetName_def text_ok_def pkey_of_def int4_max_def seq_max_def Let_def)
  from identifiers_increase_from_one [OF h] h show ?thesis by blast
qed

text \<open>
  Claim C9. For every context and request, \<^verbatim>\<open>UsersServer.CreateUser\<close> and
  \<^verbatim>\<open>UsersServer.ListUsers\<close> return exactly what \<^verbatim>\<open>Database.CreateUser\<close> and
  \<^verbatim>\<open>Database.GetUsers\<close> return, error or response, and leave the store in the state the one
  store call leaves it in.
\<close>

theorem UsersServer_is_identity_over_Database:
  "UsersServer_CreateUser db ctx req = Database_CreateUser db ctx req
   \<and> UsersServer_ListUsers db ctx lreq = Database_GetUsers db ctx"
  by (simp add: UsersServer_CreateUser_def UsersServer_ListUsers_def)

theorem UsersServer_is_identity_over_Database_witness:
  "UsersServer_CreateUser migrated (Some ContextCanceled)
       (Some \<lparr> req_Email = ''jdoe@example.com'', req_Name = ''John Doe'' \<rparr>)
     = (Inl ContextCanceled, migrated)
   \<and> UsersServer_ListUsers (migrated\<lparr> conn_err := Some (DriverError ''connection refused'') \<rparr>)
       None (Some ListUsersRequest)
     = (Inl (DriverError ''connection refused''),
        migrated\<lparr> conn_err := Some (DriverError ''connection refused'') \<rparr>)"
proof -
  have a: "Database_CreateUser migrated (Some ContextCanceled)
       (Some \<lparr> req_Email = ''jdoe@example.com'', req_Name = ''John Doe'' \<rparr>)
     = (Inl ContextCanceled, migrated)"
    by (simp add: Database_CreateUser_def QueryRowContext_def QueryContext_def
        CreateUser_of_row_def Row_Err_def)
  have b: "Database_GetUsers (migrated\<lparr> conn_err := Some (DriverError ''connection refused'') \<rparr>) None
     = (Inl (DriverError ''connection refused''),
        migrated\<lparr> conn_err := Some (DriverError ''connection refused'') \<rparr>)"
    by (simp add: Database_GetUsers_def QueryContext_def ListUsers_of_rows_def)
  from UsersServer_is_identity_over_Database
      [of migrated "Some ContextCanceled"
          "Some \<lparr> req_Email = ''jdoe@example.com'', req_Name = ''John Doe'' \<rparr>"]
    UsersServer_is_identity_over_Database
      [of "migrated\<lparr> conn_err := Some (DriverError ''connection refused'') \<rparr>" None _
          "Some ListUsersRequest"]
    a b
  show ?thesis by simp
qed

section \<open>Properties of the process supervisor\<close>

lemma runMigrations_fails_iff:
  "fst (runMigrations n u) \<noteq> None \<longleftrightarrow> n \<noteq> None \<or> (u \<noteq> None \<and> u \<noteq> Some ErrNoChange)"
  by (auto simp: runMigrations_def split: option.splits)

lemma runMigrations_trace_quiet: "\<not> list_ex opens_listener (snd (runMigrations n u))"
  by (auto simp: runMigrations_def split: option.splits)

lemma fatal_facts:
  "snd (fatal tr msg err) = Exited 1 \<and> last (fst (fatal tr msg err)) = EvExit 1
   \<and> (list_ex opens_listener (fst (fatal tr msg err)) \<longleftrightarrow> list_ex opens_listener tr)"
  by (simp add: fatal_def)

lemma main_migrate_fatal:
  assumes "fst (runMigrations (migrate_New_res env) (migrate_Up_res env)) \<noteq> None"
    and "\<not> list_ex opens_listener tr"
  shows "snd (main_migrate env tr) = Exited 1 \<and> last (fst (main_migrate env tr)) = EvExit 1
       \<and> \<not> list_ex opens_listener (fst (main_migrate env tr))"
proof -
  obtain err mtr where r: "runMigrations (migrate_New_res env) (migrate_Up_res env) = (Some err, mtr)"
    using assms(1) by (cases "runMigrations (migrate_New_res env) (migrate_Up_res env)") auto
  have q: "\<not> list_ex opens_listener mtr"
    using runMigrations_trace_quiet [of "migrate_New_res env" "migrate_Up_res env"] r by simp
  have m: "main_migrate env tr = fatal (tr @ mtr) ''failed to run migrations'' err"
    using r by (simp add: main_migrate_def)
  show ?thesis
    unfolding m using fatal_facts [of "tr @ mtr"] assms(2) q by simp
qed

lemma main_serve_listens: "EvListen '':8080'' \<in> set (fst (main_serve env tr))"
  by (simp add: main_serve_def fatal_def split: option.splits)

lemma main_serve_upd: "main_serve (env\<lparr> migrate_Up_res := u \<rparr>) tr = main_serve env tr"
  by (simp add: main_serve_def split: option.splits)

lemma main_migrate_no_change:
  assumes "migrate_Up_res env = Some ErrNoChange"
  shows "main_migrate env tr = main_migrate (env\<lparr> migrate_Up_res := None \<rparr>) tr"
  using assms by (simp add: main_migrate_def runMigrations_def main_serve_upd split: option.splits)

text \<open>
  Claim C7. At startup, when \<^verbatim>\<open>m.Up()\<close> answers \<^verbatim>\<open>migrate.ErrNoChange\<close> the supervisor behaves
  exactly as when the migrations were applied without error: \<open>runMigrations\<close> returns no
  error and \<open>main\<close> goes on to open the RPC listener and, when the remaining collaborators
  succeed, to serve. Every other failure of the migrations (of \<^verbatim>\<open>migrate.New\<close>, or of
  \<^verbatim>\<open>m.Up()\<close> with any other error) ends the process with status 1, and no listener has
  been opened before.
\<close>

theorem migrations_gate_startup:
  "(migrate_Up_res env = Some ErrNoChange \<longrightarrow>
        main env = main (env\<lparr> migrate_Up_res := None \<rparr>)
      \<and> (migrate_New_res env = None \<longrightarrow>
            runMigrations (migrate_New_res env) (migrate_Up_res env) = runMigrations None None
          \<and> fst (runMigrations (migrate_New_res env) (migrate_Up_res env)) = None
          \<and> (InitOTel_res env = Inr tp \<and> InitOTelMetrics_res env = Inr mp \<longrightarrow>
                EvListen '':8080'' \<in> set (fst (main env)))
          \<and> (InitOTel_res env = Inr tp \<and> InitOTelMetrics_res env = Inr mp
                \<and> net_Listen_res env = None \<and> NewService_res env = None
                \<and> NewClient_res env = None \<and> RegisterHandler_res env = None \<longrightarrow>
                snd (main env) = Serving \<and> last (fst (main env)) = EvListenAndServe '':8081'')))
   \<and> (migrate_New_res env \<noteq> None
        \<or> (migrate_Up_res env \<noteq> None \<and> migrate_Up_res env \<noteq> Some ErrNoChange) \<longrightarrow>
        fst (runMigrations (migrate_New_res env) (migrate_Up_res env)) \<noteq> None
      \<and> snd (main env) = Exited 1
      \<and> last (fst (main env)) = EvExit 1
      \<and> \<not> list_ex opens_listener (fst (main env)))"
proof (intro conjI impI)
  assume a: "migrate_Up_res env = Some ErrNoChange"
  show "main env = main (env\<lparr> migrate_Up_res := None \<rparr>)"
    using main_migrate_no_change [OF a] by (simp add: main_def split: sum.splits)
  assume b: "migrate_New_res env = None"
  show "runMigrations (migrate_New_res env) (migrate_Up_res env) = runMigrations None None"
    and r: "fst (runMigrations (migrate_New_res env) (migrate_Up_res env)) = None"
    using a b by (simp_all add: runMigrations_def)
  {
    fix tp mp tr
    have "main_migrate env tr = main_serve env (tr @ snd (runMigrations None None))"
      using a b by (simp add: main_migrate_def runMigrations_def)
  } note m = this
  {
    assume "InitOTel_res env = Inr tp \<and> InitOTelMetrics_res env = Inr mp"
    then show "EvListen '':8080'' \<in> set (fst (main env))"
      using main_serve_listens by (simp add: main_def m)
  }
  {
    assume "InitOTel_res env = Inr tp \<and> InitOTelMetrics_res env = Inr mp
                \<and> net_Listen_res env = None \<and> NewService_res env = None
                \<and> NewClient_res env = None \<and> RegisterHandler_res env = None"
    then show "snd (main env) = Serving" and "last (fst (main env)) = EvListenAndServe '':8081''"
      by (simp_all add: main_def m main_serve_def)
  }
next
  assume f: "migrate_New_res env \<noteq> None
        \<or> (migrate_Up_res env \<noteq> None \<and> migrate_Up_res env \<noteq> Some ErrNoChange)"
  then show g: "fst (runMigrations (migrate_New_res env) (migrate_Up_res env)) \<noteq> None"
    unfolding runMigrations_fails_iff .
  have k: "snd (main env) = Exited 1 \<and> last (fst (main env)) = EvExit 1
      \<and> \<not> list_ex opens_listener (fst (main env))"
  proof (cases "InitOTel_res env")
    case (Inl err)
    then show ?thesis by (simp add: main_def fatal_def)
  next
    case tp: (Inr tp)
    show ?thesis
    proof (cases "InitOTelMetrics_res env")
      case (Inl err)
      with tp show ?thesis by (simp add: main_def fatal_def)
    next
      case (Inr mp)
      let ?tr = "[EvInitOTel, EvInitOTelMetrics] @
                  (if mp
                   then EvRuntimeStart #
                     (case runtime_Start_res env of
                        Some err \<Rightarrow> [EvLogWarn ''failed to start runtime metrics collection'' err]
                      | None \<Rightarrow> [])
                   else [])"
      have q: "\<not> list_ex opens_listener ?tr" by (simp split: option.splits)
      have "main env = main_migrate env ?tr" using tp Inr by (simp add: main_def)
      with main_migrate_fatal [OF g q] show ?thesis by simp
    qed
  qed
  from k show "snd (main env) = Exited 1" by simp
  from k show "last (fst (main env)) = EvExit 1" by simp
  from k show "\<not> list_ex opens_listener (fst (main env))" by simp
qed


theorem migrations_gate_startup_witness:
  "main \<lparr> InitOTel_res = Inr False, InitOTelMetrics_res = Inr False, runtime_Start_res = None,
       migrate_New_res = None, migrate_Up_res = Some ErrNoChange, net_Listen_res = None,
       NewService_res = None, NewClient_res = None, RegisterHandler_res = None \<rparr>
   = main \<lparr> InitOTel_res = Inr False, InitOTelMetrics_res = Inr False, runtime_Start_res = None,
       migrate_New_res = None, migrate_Up_res = None, net_Listen_res = None,
       NewService_res = None, NewClient_res = None, RegisterHandler_res = None \<rparr>
   \<and> snd (main \<lparr> InitOTel_res = Inr False, InitOTelMetrics_res = Inr False, runtime_Start_res = None,
       migrate_New_res = None, migrate_Up_res = Some ErrNoChange, net_Listen_res = None,
       NewService_res = None, NewClient_res = None, RegisterHandler_res = None \<rparr>) = Serving
   \<and> snd (main \<lparr> InitOTel_res = Inr False, InitOTelMetrics_res = Inr False, runtime_Start_res = None,
       migrate_New_res = None, migrate_Up_res = Some (DriverError ''Dirty database version 1''),
       net_Listen_res = None, NewService_res = None, NewClient_res = None,
       RegisterHandler_res = None \<rparr>) = Exited 1
   \<and> \<not> list_ex opens_listener
       (fst (main \<lparr> InitOTel_res = Inr False, InitOTelMetrics_res = Inr False, runtime_Start_res = None,
         migrate_New_res = None, migrate_Up_res = Some (DriverError ''Dirty database version 1''),
         net_Listen_res = None, NewService_res = None, NewClient_res = None,
         RegisterHandler_res = None \<rparr>))"
proof -
  let ?e1 = "\<lparr> InitOTel_res = Inr False, InitOTelMetrics_res = Inr False, runtime_Start_res = None,
       migrate_New_res = None, migrate_Up_res = Some ErrNoChange, net_Listen_res = None,
       NewService_res = None, NewClient_res = None, RegisterHandler_res = None \<rparr>"
  let ?e2 = "\<lparr> InitOTel_res = Inr False, InitOTelMetrics_res = Inr False, runtime_Start_res = None,
       migrate_New_res = None, migrate_Up_res = Some (DriverError ''Dirty database version 1''),
       net_Listen_res = None, NewService_res = None, NewClient_res = None,
       RegisterHandler_res = None \<rparr>"
  note a = migrations_gate_startup [of ?e1 False False]
  note b = migrations_gate_startup [of ?e2]
  have a1: "main ?e1 = main (?e1\<lparr> migrate_Up_res := None \<rparr>)"
    using a by simp
  have a2: "snd (main ?e1) = Serving"
    using a by auto
  have b1: "snd (main ?e2) = Exited 1" "\<not> list_ex opens_listener (fst (main ?e2))"
    using b by simp_all
  from a1 a2 b1 show ?thesis by simp
qed

lemma log_failure_not_step: "filter is_shutdown_step (log_failure msg r) = []"
  by (simp add: log_failure_def split: option.splits)

lemma log_failure_quiet:
  "EvGracefulStop \<notin> set (log_failure msg r) \<and> EvStoreClose \<notin> set (log_failure msg r)"
  by (simp add: log_failure_def split: option.splits)

lemma run_proc_handler_first:
  "run_proc st m ((evs, None) # h') s (GHandler # gs) =
     (evs @ fst (run_proc True m h' s gs), snd (run_proc True m h' s gs))"
  by (simp add: case_prod_beta)

lemma main_return_trace:
  "run_proc True (main_return env) h s (GMain # GMain # GMain # sched) =
     ((if mp_Shutdown_res env \<noteq> None
       then EvShutdownOTelMetrics 30
            # log_failure ''failed to shutdown OpenTelemetry metrics'' (mp_deferred_res env)
       else [])
      @ (if tp_Shutdown_res env \<noteq> None
         then EvShutdownOTel 30
              # log_failure ''failed to shutdown OpenTelemetry traces'' (tp_deferred_res env)
         else [])
      @ [EvExit 0], Some 0)"
  by (simp add: main_return_def ShutdownOTel_def ShutdownOTelMetrics_def)

text \<open>
  The handler by itself, with \<open>main\<close> never scheduled: the steps the code is written
  to perform, in the order of the claim.
\<close>

lemma handler_alone_steps:
  "filter is_shutdown_step (fst (process_after_signal env (replicate 6 GHandler))) =
      [EvHTTPShutdown 10, EvGracefulStop, EvStoreClose]
      @ (if impl_Close_res env = None
         then (if tp_Shutdown_res env = None then [] else [EvShutdownOTel 30])
            @ (if mp_Shutdown_res env = None then [] else [EvShutdownOTelMetrics 30])
         else [])
   \<and> snd (process_after_signal env (replicate 6 GHandler))
       = (if impl_Close_res env = None then None else Some 1)"
  by (cases "impl_Close_res env"; cases "tp_Shutdown_res env"; cases "mp_Shutdown_res env")
    (simp_all add: process_after_signal_def handler_actions_def Service_Close_def ShutdownOTel_def
      ShutdownOTelMetrics_def log_failure_not_step numeral_eq_Suc)

text \<open>
  Claim C8 says that after a termination signal the shutdown steps occur in a fixed order
  (HTTP gateway with its drain timeout, RPC server, store connection, telemetry) and that
  a failure of the store close gives a non-zero exit. The handler is written to do so, but
  the program does not keep it. As soon as the handler has called \<^verbatim>\<open>gwServer.Shutdown\<close>,
  \<^verbatim>\<open>ListenAndServe\<close> returns \<^verbatim>\<open>http.ErrServerClosed\<close> in \<open>main\<close>, which passes the guard and
  returns. On the schedule on which \<open>main\<close> then runs, for every answer of the
  collaborators, the process ends with status 0 after the HTTP shutdown step and the
  deferred telemetry shutdowns of \<open>main\<close> (metrics before traces): the RPC server is never
  stopped, the store connection is never closed, and the status is 0 also when closing the
  store would have failed.
\<close>

theorem main_returns_before_store_close:
  "process_after_signal env (GHandler # GMain # GMain # GMain # sched) =
     ([EvLogInfo ''received signal, shutting down servers'', EvHTTPShutdown 10]
      @ (if mp_Shutdown_res env \<noteq> None
         then EvShutdownOTelMetrics 30
              # log_failure ''failed to shutdown OpenTelemetry metrics'' (mp_deferred_res env)
         else [])
      @ (if tp_Shutdown_res env \<noteq> None
         then EvShutdownOTel 30
              # log_failure ''failed to shutdown OpenTelemetry traces'' (tp_deferred_res env)
         else [])
      @ [EvExit 0], Some 0)
   \<and> EvGracefulStop \<notin> set (fst (process_after_signal env (GHandler # GMain # GMain # GMain # sched)))
   \<and> EvStoreClose \<notin> set (fst (process_after_signal env (GHandler # GMain # GMain # GMain # sched)))
   \<and> (impl_Close_res env \<noteq> None \<longrightarrow>
         snd (process_after_signal env (GHandler # GMain # GMain # GMain # sched)) = Some 0)"
proof -
  have e: "process_after_signal env (GHandler # GMain # GMain # GMain # sched) =
     ([EvLogInfo ''received signal, shutting down servers'', EvHTTPShutdown 10]
      @ (if mp_Shutdown_res env \<noteq> None
         then EvShutdownOTelMetrics 30
              # log_failure ''failed to shutdown OpenTelemetry metrics'' (mp_deferred_res env)
         else [])
      @ (if tp_Shutdown_res env \<noteq> None
         then EvShutdownOTel 30
              # log_failure ''failed to shutdown OpenTelemetry traces'' (tp_deferred_res env)
         else [])
      @ [EvExit 0], Some 0)"
  proof -
    have h: "handler_actions env =
        ([EvLogInfo ''received signal, shutting down servers'', EvHTTPShutdown 10], None)
        # tl (handler_actions env)"
      by (simp add: handler_actions_def)
    have m: "main_after_serve env (Some ErrServerClosed) = main_return env"
      by (simp add: main_after_serve_def)
    show ?thesis
      unfolding process_after_signal_def m
      by (subst h, subst run_proc_handler_first, simp only: main_return_trace, simp)
  qed
  show ?thesis
    unfolding e using log_failure_quiet by simp
qed

theorem main_returns_before_store_close_witness:
  "process_after_signal
     \<lparr> gw_Shutdown_res = None, impl_Close_res = Some (DriverError ''close failed''),
       tp_Shutdown_res = Some None, mp_Shutdown_res = None,
       tp_deferred_res = None, mp_deferred_res = None, grpc_Serve_res = None \<rparr>
     [GHandler, GMain, GMain, GMain, GHandler, GHandler, GHandler]
   = ([EvLogInfo ''received signal, shutting down servers'', EvHTTPShutdown 10,
       EvShutdownOTel 30, EvExit 0], Some 0)
   \<and> impl_Close_res
     \<lparr> gw_Shutdown_res = None, impl_Close_res = Some (DriverError ''close failed''),
       tp_Shutdown_res = Some None, mp_Shutdown_res = None,
       tp_deferred_res = None, mp_deferred_res = None, grpc_Serve_res = None \<rparr> \<noteq> None"
  using main_returns_before_store_close
    [of "\<lparr> gw_Shutdown_res = None, impl_Close_res = Some (DriverError ''close failed''),
       tp_Shutdown_res = Some None, mp_Shutdown_res = None,
       tp_deferred_res = None, mp_deferred_res = None, grpc_Serve_res = None \<rparr>"
      "[GHandler, GHandler, GHandler]"]
  by (simp add: log_failure_def)

end
